theory Spec2Isabelle
  imports Main "HOL-Library.Sublist"
begin

section \<open>Dates and instants in UTC\<close>

text \<open>
  Both source files use the Temporal library with the time zone fixed to UTC. A
  \<^verbatim>\<open>ZonedDateTime\<close> in UTC is determined by its instant, which is modelled as the
  number of nanoseconds since 1970-01-01T00:00:00Z (an unbounded integer, as the
  library's BigInt). UTC has no offset changes, so a calendar day is always
  \<open>86400\<close> seconds long and the start of a day is the instant rounded down to a
  multiple of that length.
\<close>

type_synonym instant = int

definition ns_per_second :: int where
  "ns_per_second = 1000000000"

definition ns_per_day :: int where
  "ns_per_day = 86400 * ns_per_second"

text \<open>A \<^verbatim>\<open>Temporal.PlainDate\<close>: a calendar date of the ISO calendar.\<close>

record plain_date =
  pd_year :: int
  pd_month :: int
  pd_day :: int

text \<open>
  The day number of a calendar date (days since 1970-01-01, proleptic Gregorian
  calendar) and its inverse, by the usual era arithmetic: an era is 400 years, that is
  146097 days, and the year is taken to start in March.
\<close>

definition days_from_civil :: "plain_date \<Rightarrow> int" where
  "days_from_civil d =
     (let y = (if pd_month d \<le> 2 then pd_year d - 1 else pd_year d);
          era = y div 400;
          yoe = y - era * 400;
          mp = (if pd_month d > 2 then pd_month d - 3 else pd_month d + 9);
          doy = (153 * mp + 2) div 5 + pd_day d - 1;
          doe = yoe * 365 + yoe div 4 - yoe div 100 + doy
      in era * 146097 + doe - 719468)"

definition civil_from_days :: "int \<Rightarrow> plain_date" where
  "civil_from_days z =
     (let z' = z + 719468;
          era = z' div 146097;
          doe = z' - era * 146097;
          yoe = (doe - doe div 1460 + doe div 36524 - doe div 146096) div 365;
          doy = doe - (365 * yoe + yoe div 4 - yoe div 100);
          mp = (5 * doy + 2) div 153;
          dd = doy - (153 * mp + 2) div 5 + 1;
          mm = (if mp < 10 then mp + 3 else mp - 9);
          yy = yoe + era * 400
      in \<lparr>pd_year = (if mm \<le> 2 then yy + 1 else yy), pd_month = mm, pd_day = dd\<rparr>)"

text \<open>
  \<^verbatim>\<open>plainDate.toZonedDateTime({ timeZone: "UTC", plainTime })\<close>: the instant of the
  given wall-clock time (here as nanoseconds after midnight) on that date.
\<close>

definition toZonedDateTime :: "plain_date \<Rightarrow> int \<Rightarrow> instant" where
  "toZonedDateTime d plainTime = days_from_civil d * ns_per_day + plainTime"

text \<open>\<^verbatim>\<open>zonedDateTime.startOfDay()\<close>: the first instant of the same calendar day.\<close>

definition startOfDay :: "instant \<Rightarrow> instant" where
  "startOfDay t = t - t mod ns_per_day"

text \<open>\<^verbatim>\<open>zonedDateTime.add({ days: n })\<close> in UTC.\<close>

definition add_days :: "instant \<Rightarrow> int \<Rightarrow> instant" where
  "add_days t n = t + n * ns_per_day"

text \<open>\<^verbatim>\<open>Temporal.ZonedDateTime.compare(a, b)\<close>: \<open>-1\<close>, \<open>0\<close> or \<open>1\<close>.\<close>

definition zdt_compare :: "instant \<Rightarrow> instant \<Rightarrow> int" where
  "zdt_compare a b = (if a < b then - 1 else if a = b then 0 else 1)"

subsection \<open>Printing\<close>

definition digit_char :: "int \<Rightarrow> char" where
  "digit_char n = ''0123456789'' ! nat (n mod 10)"

text \<open>The last \<open>w\<close> decimal digits of \<open>n\<close>, padded with zeros on the left.\<close>

fun pad_digits :: "nat \<Rightarrow> int \<Rightarrow> string" where
  "pad_digits 0 n = []"
| "pad_digits (Suc w) n = pad_digits w (n div 10) @ [digit_char n]"

text \<open>
  The ISO 8601 year: four digits for the years 0 to 9999, otherwise a sign and six
  digits.
\<close>

definition iso_year :: "int \<Rightarrow> string" where
  "iso_year y =
     (if 0 \<le> y \<and> y \<le> 9999 then pad_digits 4 y
      else (if y < 0 then ''-'' else ''+'') @ pad_digits 6 \<bar>y\<bar>)"

definition iso_date :: "plain_date \<Rightarrow> string" where
  "iso_date d =
     iso_year (pd_year d) @ ''-'' @ pad_digits 2 (pd_month d) @ ''-'' @ pad_digits 2 (pd_day d)"

text \<open>The fraction of a second: nine digits with the trailing zeros removed.\<close>

definition iso_fraction :: "int \<Rightarrow> string" where
  "iso_fraction f =
     (if f = 0 then [] else ''.'' @ rev (dropWhile (\<lambda>c. c = CHR ''0'') (rev (pad_digits 9 f))))"

text \<open>The time of day, from the nanoseconds after midnight.\<close>

definition iso_time :: "int \<Rightarrow> string" where
  "iso_time n =
     (let s = n div ns_per_second
      in pad_digits 2 (s div 3600) @ '':'' @ pad_digits 2 (s div 60 mod 60) @ '':'' @
         pad_digits 2 (s mod 60) @ iso_fraction (n mod ns_per_second))"

text \<open>\<^verbatim>\<open>zonedDateTime.toString()\<close> for the time zone UTC.\<close>

definition zdt_toString :: "instant \<Rightarrow> string" where
  "zdt_toString t =
     iso_date (civil_from_days (t div ns_per_day)) @ ''T'' @ iso_time (t mod ns_per_day) @
     ''+00:00[UTC]''"

section \<open>Strings\<close>

text \<open>
  A string is the list of its code units. \<^verbatim>\<open>s.startsWith(p)\<close> and \<^verbatim>\<open>s.includes(n)\<close>
  of JavaScript; the empty string is included in every string.
\<close>

definition newline :: char where
  "newline = CHR 0x0A"

definition tab :: char where
  "tab = CHR 0x09"

definition str_startsWith :: "string \<Rightarrow> string \<Rightarrow> bool" where
  "str_startsWith s p = prefix p s"

fun str_includes :: "string \<Rightarrow> string \<Rightarrow> bool" where
  "str_includes [] n = (n = [])"
| "str_includes (c # cs) n = (prefix n (c # cs) \<or> str_includes cs n)"

text \<open>
  \<^verbatim>\<open>s.split(sep)\<close> for a separator of one character: the fields between the
  separators, so that a string without the separator is one field and the empty
  string gives one empty field. \<^verbatim>\<open>s.split(sep, limit)\<close> keeps the first \<open>limit\<close>
  fields.
\<close>

fun split_on :: "char \<Rightarrow> string \<Rightarrow> string list" where
  "split_on sep [] = [[]]"
| "split_on sep (c # cs) =
     (if c = sep then [] # split_on sep cs
      else (case split_on sep cs of
              [] \<Rightarrow> [[c]]
            | f # fs \<Rightarrow> (c # f) # fs))"

definition split_limit :: "char \<Rightarrow> nat \<Rightarrow> string \<Rightarrow> string list" where
  "split_limit sep limit s = take limit (split_on sep s)"

text \<open>
  \<^verbatim>\<open>out.split("\n").filter((line) => line.length > 0).at(-1)\<close>: the last line that
  is not empty, \<^verbatim>\<open>undefined\<close> when there is none.
\<close>

definition last_line :: "string \<Rightarrow> string option" where
  "last_line out =
     (case rev (filter (\<lambda>line. length line > 0) (split_on newline out)) of
        [] \<Rightarrow> None
      | l # _ \<Rightarrow> Some l)"

section \<open>The inventory (src/lib/inventory.mjs)\<close>

subsection \<open>State, environment and errors\<close>

datatype log_level = Debug | Info | Warn | Error

text \<open>
  The fields of the class \<^verbatim>\<open>Inventory\<close>. The logger is modelled by the list of the
  calls made on it, in order. The methods modelled are the constructor, \<^verbatim>\<open>init\<close> with
  its stages, and \<^verbatim>\<open>redirects\<close>.
\<close>

record inventory =
  repo :: string
  destPath :: string
  logger :: "(log_level \<times> string) list"
  rawInventoryStdErr :: string
  rawInventoryStdOut :: string
  rawRedirects :: "string option"

text \<open>
  How the extraction subprocess of \<^verbatim>\<open>loadInventory\<close> ends: it emits \<^verbatim>\<open>error\<close> (it could
  not be spawned), or it writes chunks to its standard output and standard error and
  emits \<^verbatim>\<open>close\<close> with its exit code, which is \<^verbatim>\<open>null\<close> when a signal ended it. (A
  negative code is how the runtime reports a failed spawn, and then \<^verbatim>\<open>error\<close> has
  been emitted first; the code of a process that ran is a natural number.)
\<close>

datatype spawned =
  SpawnError string
  | Closed "string list" "string list" "nat option"

text \<open>
  What the methods read from outside: whether a path exists, the standard output of
  a command run by \<^verbatim>\<open>execFileSync\<close> (\<open>None\<close> when it throws), the text of a file
  (\<open>None\<close> when \<^verbatim>\<open>readFileSync\<close> throws) and the run of a spawned command.
\<close>

record inv_world =
  path_exists :: "string \<Rightarrow> bool"
  execFile :: "string \<Rightarrow> string list \<Rightarrow> string option"
  readFile :: "string \<Rightarrow> string option"
  spawn :: "string \<Rightarrow> string list \<Rightarrow> spawned"

datatype inv_error =
  ExecFailed string "string list"
  | ReadFailed string
  | NoCommitNear string
  | SpawnFailed string
  | LoadFailed
  | RedirectsNotLoaded

text \<open>
  A method that returns nothing yields the error it throws, if any, and the object
  as it has left it.
\<close>

type_synonym inv_result = "inv_error option \<times> inventory"

definition log_call :: "log_level \<Rightarrow> string \<Rightarrow> inventory \<Rightarrow> inventory" where
  "log_call lvl msg self = self\<lparr>logger := logger self @ [(lvl, msg)]\<rparr>"

text \<open>The constructor, with the options resolved (the defaults are in the comments).\<close>

definition new_inventory :: "string \<Rightarrow> string \<Rightarrow> inventory" where
  "new_inventory r d =
     \<lparr>repo = r, destPath = d, logger = [], rawInventoryStdErr = [], rawInventoryStdOut = [],
      rawRedirects = None\<rparr>"

subsection \<open>The stages of \<^verbatim>\<open>init\<close>\<close>

definition clone :: "inv_world \<Rightarrow> inventory \<Rightarrow> inv_result" where
  "clone w self =
     (if \<not> path_exists w (destPath self) \<or> \<not> path_exists w (destPath self @ ''/.git'') then
        (let self1 = log_call Info (''Cloning '' @ repo self @ '' to '' @ destPath self) self;
             args = [''repo'', ''clone'', repo self, destPath self, ''--'', ''--filter=blob:none'',
                     ''--quiet'']
         in case execFile w ''gh'' args of
              None \<Rightarrow> (Some (ExecFailed ''gh'' args), self1)
            | Some _ \<Rightarrow> (None, self1))
      else (None, log_call Info (''Reusing existing clone at '' @ destPath self) self))"

text \<open>
  Lines 115 to 117 of \<^verbatim>\<open>Inventory.checkout\<close>:
  \<^verbatim>\<open>Temporal.PlainDate.from(date).toZonedDateTime({ timeZone: "UTC", plainTime: "00:00:01" }).startOfDay()\<close>.
  The argument is the calendar date that \<^verbatim>\<open>PlainDate.from\<close> has read from the string.
\<close>

definition checkout_target :: "plain_date \<Rightarrow> instant" where
  "checkout_target date = startOfDay (toZonedDateTime date (1 * ns_per_second))"

text \<open>The last step of \<^verbatim>\<open>checkout\<close>: switch to the reference.\<close>

definition switch_to :: "inv_world \<Rightarrow> string \<Rightarrow> inventory \<Rightarrow> inv_result" where
  "switch_to w ref self =
     (let self1 = log_call Info (''Checking out '' @ ref) self;
          args = [''switch'', ''--quiet'', ''--detach'', ref]
      in case execFile w ''git'' args of
           None \<Rightarrow> (Some (ExecFailed ''git'' args), self1)
         | Some _ \<Rightarrow> (None, self1))"

text \<open>
  \<^verbatim>\<open>checkout(ref, date)\<close>; the date is \<open>None\<close> when the argument is absent or
  empty.
\<close>

definition checkout :: "inv_world \<Rightarrow> string \<Rightarrow> plain_date option \<Rightarrow> inventory \<Rightarrow> inv_result" where
  "checkout w ref date self =
     (let self1 = log_call Debug ''Fetching from origin'' self
      in case execFile w ''git'' [''fetch'', ''origin''] of
           None \<Rightarrow> (Some (ExecFailed ''git'' [''fetch'', ''origin'']), self1)
         | Some _ \<Rightarrow>
             (case date of
                None \<Rightarrow> switch_to w ref self1
              | Some d \<Rightarrow>
                  (let target = checkout_target d;
                       self2 = log_call Info
                         (''Looking for commit on '' @ ref @ '' at '' @ zdt_toString target) self1;
                       args = [''rev-list'', ''-1'', ''--before='' @ zdt_toString target, ref]
                   in case execFile w ''git'' args of
                        None \<Rightarrow> (Some (ExecFailed ''git'' args), self2)
                      | Some out \<Rightarrow>
                          (case last_line out of
                             None \<Rightarrow> (Some (NoCommitNear (zdt_toString target)), self2)
                           | Some hash \<Rightarrow> switch_to w hash self2))))"

definition loadRedirects :: "inv_world \<Rightarrow> inventory \<Rightarrow> inv_result" where
  "loadRedirects w self =
     (case readFile w (destPath self @ ''/files/en-us/_redirects.txt'') of
        None \<Rightarrow> (Some (ReadFailed (destPath self @ ''/files/en-us/_redirects.txt'')), self)
      | Some text \<Rightarrow> (None, self\<lparr>rawRedirects := Some text\<rparr>))"

text \<open>\<^verbatim>\<open>installDeps\<close> (the message ends with an ellipsis, written here with three dots).\<close>

definition installDeps :: "inv_world \<Rightarrow> inventory \<Rightarrow> inv_result" where
  "installDeps w self =
     (let self1 = log_call Info ''Installing dependencies...'' self
      in case execFile w ''npm'' [''ci''] of
           None \<Rightarrow> (Some (ExecFailed ''npm'' [''ci'']), self1)
         | Some _ \<Rightarrow> (None, self1))"

text \<open>
  \<^verbatim>\<open>loadInventory\<close>: the promise is rejected with the spawn error, or resolved with the
  exit code once the chunks have been appended to the two buffers.
\<close>

definition inventory_args :: "string list" where
  "inventory_args = [''--silent'', ''run'', ''content'', ''--'', ''inventory'', ''--quiet'']"

definition loadInventory :: "inv_world \<Rightarrow> inventory \<Rightarrow> (inv_error + nat option) \<times> inventory" where
  "loadInventory w self =
     (case spawn w ''npm'' inventory_args of
        SpawnError e \<Rightarrow> (Inl (SpawnFailed e), self)
      | Closed outs errs code \<Rightarrow>
          (Inr code,
           self\<lparr>rawInventoryStdOut := rawInventoryStdOut self @ concat outs,
               rawInventoryStdErr := rawInventoryStdErr self @ concat errs\<rparr>))"

text \<open>The test of \<^verbatim>\<open>init\<close> on the exit code: \<^verbatim>\<open>result === null || result > 0\<close>.\<close>

definition load_failed :: "nat option \<Rightarrow> bool" where
  "load_failed result = (case result of None \<Rightarrow> True | Some code \<Rightarrow> code > 0)"

text \<open>Lines 70 to 73 of \<^verbatim>\<open>init\<close>: the stages before the extraction.\<close>

definition prepare :: "inv_world \<Rightarrow> string \<Rightarrow> plain_date option \<Rightarrow> inventory \<Rightarrow> inv_result" where
  "prepare w ref date self =
     (case clone w self of
        (Some e, self1) \<Rightarrow> (Some e, self1)
      | (None, self1) \<Rightarrow>
     (case checkout w ref date self1 of
        (Some e, self2) \<Rightarrow> (Some e, self2)
      | (None, self2) \<Rightarrow>
     (case loadRedirects w self2 of
        (Some e, self3) \<Rightarrow> (Some e, self3)
      | (None, self3) \<Rightarrow> installDeps w self3)))"

text \<open>\<^verbatim>\<open>init(ref, date)\<close>: the stages, then lines 74 to 78.\<close>

definition init :: "inv_world \<Rightarrow> string \<Rightarrow> plain_date option \<Rightarrow> inventory \<Rightarrow> inv_result" where
  "init w ref date self =
     (case prepare w ref date self of
        (Some e, self4) \<Rightarrow> (Some e, self4)
      | (None, self4) \<Rightarrow>
     (case loadInventory w self4 of
        (Inl e, self5) \<Rightarrow> (Some e, self5)
      | (Inr result, self5) \<Rightarrow>
          (if load_failed result
           then (Some LoadFailed, log_call Error (rawInventoryStdErr self5) self5)
           else (None, self5))))"

subsection \<open>The redirect table\<close>

text \<open>
  A \<^verbatim>\<open>Map\<close> keeps its keys in the order of their first insertion: \<^verbatim>\<open>set\<close> replaces
  the value of a key that is present and appends a new key.
\<close>

fun map_set :: "('k \<times> 'v) list \<Rightarrow> 'k \<Rightarrow> 'v \<Rightarrow> ('k \<times> 'v) list" where
  "map_set [] k v = [(k, v)]"
| "map_set ((k', v') # m) k v = (if k' = k then (k, v) # m else (k', v') # map_set m k v)"

text \<open>
  The body of the loop of \<^verbatim>\<open>redirects\<close>: the first two fields of the line are
  \<^verbatim>\<open>source\<close> and \<^verbatim>\<open>target\<close> (\<^verbatim>\<open>undefined\<close> when the field is missing), and the entry is
  set when both are truthy, that is present and not empty.
\<close>

definition redirect_step :: "(string \<times> string) list \<Rightarrow> string \<Rightarrow> (string \<times> string) list" where
  "redirect_step redirectMap redirectLine =
     (case split_limit tab 2 redirectLine of
        [source, target] \<Rightarrow>
          (if source \<noteq> [] \<and> target \<noteq> [] then map_set redirectMap source target
           else redirectMap)
      | _ \<Rightarrow> redirectMap)"

text \<open>
  \<^verbatim>\<open>redirects()\<close>. The object made by \<^verbatim>\<open>Object.fromEntries\<close> has the entries of the map
  in the same order (no key is an array index: every key starts with a slash); it is
  modelled by the list of its entries.
\<close>

definition redirects :: "inventory \<Rightarrow> inv_error + (string \<times> string) list" where
  "redirects self =
     (case rawRedirects self of
        None \<Rightarrow> Inl RedirectsNotLoaded
      | Some raw \<Rightarrow>
          (let lines = split_on newline raw;
               redirectLines =
                 filter (\<lambda>line. str_startsWith line ''/'' \<and> str_includes line [tab]) lines
           in Inr (foldl redirect_step [] redirectLines)))"

text \<open>
  The table as the specification words it: the lines of the text; those that start
  with a slash and contain a tab; of each, the first two fields between tabs; the
  lines where both fields are non-empty; inserted in the order of the lines, a later
  entry replacing an earlier one with the same source.
\<close>

definition retained :: "string \<Rightarrow> bool" where
  "retained line = (line \<noteq> [] \<and> hd line = CHR ''/'' \<and> tab \<in> set line)"

definition first_field :: "string \<Rightarrow> string" where
  "first_field line = takeWhile (\<lambda>c. c \<noteq> tab) line"

definition second_field :: "string \<Rightarrow> string" where
  "second_field line = takeWhile (\<lambda>c. c \<noteq> tab) (tl (dropWhile (\<lambda>c. c \<noteq> tab) line))"

definition spec_entries :: "string \<Rightarrow> (string \<times> string) list" where
  "spec_entries raw =
     map (\<lambda>line. (first_field line, second_field line))
       (filter (\<lambda>line. retained line \<and> first_field line \<noteq> [] \<and> second_field line \<noteq> [])
          (split_on newline raw))"

definition insert_entry :: "(string \<rightharpoonup> string) \<Rightarrow> string \<times> string \<Rightarrow> (string \<rightharpoonup> string)" where
  "insert_entry m e = m(fst e \<mapsto> snd e)"

definition spec_redirect_table :: "string \<Rightarrow> (string \<rightharpoonup> string)" where
  "spec_redirect_table raw = foldl insert_entry Map.empty (spec_entries raw)"

section \<open>The driver (src/scripts/publish-historic.mjs)\<close>

subsection \<open>Options, environment and state\<close>

text \<open>The parsed command line: \<^verbatim>\<open>argv.dryRun\<close>, \<^verbatim>\<open>argv.continue\<close>, \<^verbatim>\<open>argv.verbose\<close>.\<close>

record argv =
  argv_dryRun :: bool
  argv_continue :: bool
  argv_verbose :: nat

text \<open>
  What \<^verbatim>\<open>npm view @mdn/content-inventory time --json\<close> gives inside
  \<^verbatim>\<open>completedReleases\<close>: the command fails (\<^verbatim>\<open>execFileSync\<close> throws), its output is not
  JSON (\<^verbatim>\<open>JSON.parse\<close> throws), or it is the object of the publish times, modelled by
  the list of its entries.
\<close>

datatype registry_reply =
  QueryFailed
  | NotJSON
  | Times "(string \<times> string) list"

text \<open>
  The world around a run. A command run by \<^verbatim>\<open>npm\<close> succeeds or fails depending on
  how many commands the run has made before it and on its arguments; the build of a
  day leaves a version in \<^verbatim>\<open>package/package.json\<close> and a short hash in
  \<^verbatim>\<open>package/index.json\<close> (\<open>None\<close> when reading the file throws); the registry answers
  the query made in the iteration of a day.
\<close>

record world =
  npm_ok :: "nat \<Rightarrow> string list \<Rightarrow> bool"
  package_version :: "instant \<Rightarrow> string option"
  commit_short :: "instant \<Rightarrow> string option"
  npm_view :: "instant \<Rightarrow> registry_reply"

datatype run_error =
  ExecError "string list"
  | ReadError string
  | ParseError
  | DuplicateError string

text \<open>
  What a run has done so far: the argument lists of the \<^verbatim>\<open>npm\<close> commands it has
  made and the calls on its logger, both in order.
\<close>

record run_state =
  executed :: "string list list"
  logged :: "(log_level \<times> string) list"

type_synonym run_result = "run_error option \<times> run_state"

definition log_run :: "log_level \<Rightarrow> string \<Rightarrow> run_state \<Rightarrow> run_state" where
  "log_run lvl msg st = st\<lparr>logged := logged st @ [(lvl, msg)]\<rparr>"

text \<open>
  \<^verbatim>\<open>START_DATE\<close>: \<^verbatim>\<open>Temporal.Instant.from("2023-10-01T00:00:00.000Z").toZonedDateTimeISO("UTC")\<close>.
\<close>

definition START_DATE :: instant where
  "START_DATE = toZonedDateTime \<lparr>pd_year = 2023, pd_month = 10, pd_day = 1\<rparr> 0"

subsection \<open>The helpers\<close>

definition npmRun :: "world \<Rightarrow> string \<Rightarrow> string list \<Rightarrow> run_state \<Rightarrow> run_result" where
  "npmRun w command moreArgs st =
     (let moreArgs' = (if length moreArgs > 0 then ''--'' # moreArgs else moreArgs);
          args = [''run'', command] @ moreArgs';
          st' = st\<lparr>executed := executed st @ [args]\<rparr>
      in if npm_ok w (length (executed st)) args then (None, st')
         else (Some (ExecError args), st'))"

definition view_args :: "string list" where
  "view_args = [''view'', ''@mdn/content-inventory'', ''time'', ''--json'']"

text \<open>The body of the \<^verbatim>\<open>try\<close> block of \<^verbatim>\<open>completedReleases\<close>.\<close>

definition completedReleases_try :: "world \<Rightarrow> instant \<Rightarrow> run_error + (string \<times> string) list" where
  "completedReleases_try w target =
     (case npm_view w target of
        QueryFailed \<Rightarrow> Inl (ExecError view_args)
      | NotJSON \<Rightarrow> Inl ParseError
      | Times ts \<Rightarrow> Inr ts)"

text \<open>
  \<^verbatim>\<open>completedReleases()\<close>, called in the iteration of the day \<open>target\<close>: the \<^verbatim>\<open>catch\<close>
  block returns the empty object.
\<close>

definition completedReleases ::
  "world \<Rightarrow> instant \<Rightarrow> run_state \<Rightarrow> (run_error + (string \<times> string) list) \<times> run_state" where
  "completedReleases w target st =
     (let st' = st\<lparr>executed := executed st @ [view_args]\<rparr>
      in case completedReleases_try w target of
           Inl err \<Rightarrow> (Inr [], st')
         | Inr ts \<Rightarrow> (Inr ts, st'))"

subsection \<open>The body of the loop\<close>

text \<open>
  Lines 55 to 63: clean, build for the day, and read the version and the short hash
  of the package that was built.
\<close>

definition build_candidate ::
  "world \<Rightarrow> instant \<Rightarrow> run_state \<Rightarrow> (run_error + string \<times> string) \<times> run_state" where
  "build_candidate w target st =
     (case npmRun w ''clean'' [] st of
        (Some e, st1) \<Rightarrow> (Inl e, st1)
      | (None, st1) \<Rightarrow>
     (case npmRun w ''build'' [''--date='' @ zdt_toString target] st1 of
        (Some e, st2) \<Rightarrow> (Inl e, st2)
      | (None, st2) \<Rightarrow>
     (case package_version w target of
        None \<Rightarrow> (Inl (ReadError ''package/package.json''), st2)
      | Some forthcomingVersion \<Rightarrow>
     (case commit_short w target of
        None \<Rightarrow> (Inl (ReadError ''package/index.json''), st2)
      | Some forthcomingHash \<Rightarrow> (Inr (forthcomingVersion, forthcomingHash), st2)))))"

text \<open>Line 65: \<^verbatim>\<open>target.toString().slice(0, 10).replaceAll("-", "")\<close>.\<close>

definition forthcomingDate :: "instant \<Rightarrow> string" where
  "forthcomingDate target = filter (\<lambda>c. c \<noteq> CHR ''-'') (take 10 (zdt_toString target))"

definition attempt_message :: "string \<Rightarrow> string \<Rightarrow> string \<Rightarrow> string" where
  "attempt_message date hash version =
     ''Attempting to publish for '' @ date @ '' and '' @ hash @ '' as '' @ version"

definition published_message :: "string \<Rightarrow> string \<Rightarrow> string \<Rightarrow> string" where
  "published_message date hash version =
     date @ '' or '' @ hash @ '' is already published as '' @ version"

text \<open>
  Lines 71 to 79: \<^verbatim>\<open>alreadyPublished\<close> starts as \<^verbatim>\<open>false\<close> (\<open>None\<close>) and is set to
  the message at every version that includes the date or the hash.
\<close>

definition check_published :: "string list \<Rightarrow> string \<Rightarrow> string \<Rightarrow> string \<Rightarrow> string option" where
  "check_published versions date hash version =
     foldl (\<lambda>alreadyPublished v.
              if str_includes v date \<or> str_includes v hash
              then Some (published_message date hash version)
              else alreadyPublished)
       None versions"

text \<open>The test \<^verbatim>\<open>if (alreadyPublished)\<close>: \<^verbatim>\<open>false\<close> and the empty string are falsy.\<close>

definition truthy :: "string option \<Rightarrow> bool" where
  "truthy a = (case a of None \<Rightarrow> False | Some s \<Rightarrow> s \<noteq> [])"

text \<open>
  Lines 81 to 93: skip, throw or publish. Where the test succeeds,
  \<^verbatim>\<open>alreadyPublished\<close> is a string, the message.
\<close>

definition decide :: "world \<Rightarrow> argv \<Rightarrow> string option \<Rightarrow> run_state \<Rightarrow> run_result" where
  "decide w cfg alreadyPublished st =
     (case (if truthy alreadyPublished then alreadyPublished else None) of
        Some message \<Rightarrow>
          (if argv_continue cfg
           then (None, log_run Warn (message @ ''; skipping this release'') st)
           else (Some (DuplicateError message), st))
      | None \<Rightarrow>
          (if argv_dryRun cfg then npmRun w ''publish:dry-run'' [] st
           else npmRun w ''publish'' [] st))"

text \<open>Lines 65 to 95 for the candidate that was built.\<close>

definition publish_candidate ::
  "world \<Rightarrow> argv \<Rightarrow> instant \<Rightarrow> string \<Rightarrow> string \<Rightarrow> run_state \<Rightarrow> run_result" where
  "publish_candidate w cfg target forthcomingVersion forthcomingHash st =
     (let st1 = log_run Debug
            (attempt_message (forthcomingDate target) forthcomingHash forthcomingVersion) st
      in case completedReleases w target st1 of
           (Inl e, st2) \<Rightarrow> (Some e, st2)
         | (Inr releases, st2) \<Rightarrow>
             (case decide w cfg
                     (check_published (map fst releases) (forthcomingDate target)
                        forthcomingHash forthcomingVersion) st2 of
                (Some e, st3) \<Rightarrow> (Some e, st3)
              | (None, st3) \<Rightarrow> npmRun w ''clean'' [] st3))"

definition iteration :: "world \<Rightarrow> argv \<Rightarrow> instant \<Rightarrow> run_state \<Rightarrow> run_result" where
  "iteration w cfg target st =
     (case build_candidate w target st of
        (Inl e, st1) \<Rightarrow> (Some e, st1)
      | (Inr (forthcomingVersion, forthcomingHash), st1) \<Rightarrow>
          publish_candidate w cfg target forthcomingVersion forthcomingHash st1)"

subsection \<open>The loop\<close>

text \<open>
  \<^verbatim>\<open>while (Temporal.ZonedDateTime.compare(target, now) < 1)\<close>, with
  \<^verbatim>\<open>target = target.add({ days: 1 })\<close> at the end of the body. An error thrown in the
  body ends the run.
\<close>

function main_loop :: "world \<Rightarrow> argv \<Rightarrow> instant \<Rightarrow> instant \<Rightarrow> run_state \<Rightarrow> run_result" where
  "main_loop w cfg now target st =
     (if zdt_compare target now < 1 then
        (case iteration w cfg target st of
           (Some e, st') \<Rightarrow> (Some e, st')
         | (None, st') \<Rightarrow> main_loop w cfg now (add_days target 1) st')
      else (None, st))"
  by pat_completeness auto
termination
  by (relation "measure (\<lambda>(w, cfg, now, target, st). nat (now - target + 1))")
    (auto simp: zdt_compare_def add_days_def ns_per_day_def ns_per_second_def split: if_splits)

declare main_loop.simps [simp del]

text \<open>\<^verbatim>\<open>main()\<close>, where \<open>now\<close> is the instant read at its start.\<close>

definition main :: "world \<Rightarrow> argv \<Rightarrow> instant \<Rightarrow> run_result" where
  "main w cfg now = main_loop w cfg now START_DATE \<lparr>executed = [], logged = []\<rparr>"

subsection \<open>Reading a run\<close>

text \<open>The argument lists that \<^verbatim>\<open>npmRun\<close> passes to \<^verbatim>\<open>npm\<close> for the scripts of the loop.\<close>

definition clean_args :: "string list" where
  "clean_args = [''run'', ''clean'']"

definition build_args :: "instant \<Rightarrow> string list" where
  "build_args target = [''run'', ''build'', ''--'', ''--date='' @ zdt_toString target]"

definition publish_args :: "string list" where
  "publish_args = [''run'', ''publish'']"

definition dry_run_args :: "string list" where
  "dry_run_args = [''run'', ''publish:dry-run'']"

text \<open>
  \<^verbatim>\<open>Object.keys(completedReleases())\<close> in the iteration of a day, and whether the
  candidate of the day matches them: the test \<^verbatim>\<open>if (alreadyPublished)\<close> after the loop
  over the keys.
\<close>

definition seen_versions :: "world \<Rightarrow> instant \<Rightarrow> string list" where
  "seen_versions w target =
     map fst (case completedReleases_try w target of Inl e \<Rightarrow> [] | Inr ts \<Rightarrow> ts)"

definition matched :: "world \<Rightarrow> instant \<Rightarrow> string \<Rightarrow> string \<Rightarrow> bool" where
  "matched w target version hash =
     truthy (check_published (seen_versions w target) (forthcomingDate target) hash version)"

text \<open>The publish script of the mode.\<close>

definition publish_script :: "argv \<Rightarrow> string list" where
  "publish_script cfg = (if argv_dryRun cfg then dry_run_args else publish_args)"

text \<open>The builds of a run, in order: one for each day whose build was started.\<close>

definition builds :: "run_state \<Rightarrow> string list list" where
  "builds st = filter (\<lambda>args. take 2 args = [''run'', ''build'']) (executed st)"

text \<open>
  A run seen without the difference between the two publish scripts: the script
  \<^verbatim>\<open>publish\<close> is read as \<^verbatim>\<open>publish:dry-run\<close>, in the commands and in the error of a
  command that failed.
\<close>

definition as_dry_args :: "string list \<Rightarrow> string list" where
  "as_dry_args args = (if args = publish_args then dry_run_args else args)"

definition as_dry_state :: "run_state \<Rightarrow> run_state" where
  "as_dry_state st = st\<lparr>executed := map as_dry_args (executed st)\<rparr>"

fun as_dry_error :: "run_error \<Rightarrow> run_error" where
  "as_dry_error (ExecError args) = ExecError (as_dry_args args)"
| "as_dry_error e = e"

definition as_dry_run :: "run_result \<Rightarrow> run_result" where
  "as_dry_run r = (map_option as_dry_error (fst r), as_dry_state (snd r))"

section \<open>Sample inputs\<close>

text \<open>A redirect file with every kind of line.\<close>

definition redirects_sample :: string where
  "redirects_sample =
     ''/old/path'' @ [tab] @ ''/new/path'' @ [newline] @
     ''# a comment'' @ [newline] @
     ''no/slash'' @ [tab] @ ''/x'' @ [newline] @
     ''/no-tab'' @ [newline] @
     ''/empty-target'' @ [tab] @ [newline] @
     ''/b'' @ [tab] @ ''/c'' @ [tab] @ ''/d'' @ [newline] @
     ''/old/path'' @ [tab] @ ''/newer/path'' @ [newline]"

text \<open>
  The scenarios of the specification: the run starts with \<open>now\<close> at
  2023-10-03T00:00:00Z; every command succeeds and every build leaves a version and
  a hash; the registry has no history of the package, or it has a version that embeds
  \<open>20231002\<close>.
\<close>

definition scenario_now :: instant where
  "scenario_now = toZonedDateTime \<lparr>pd_year = 2023, pd_month = 10, pd_day = 3\<rparr> 0"

text \<open>Noon of the same day.\<close>

definition scenario_noon :: instant where
  "scenario_noon = scenario_now + 43200 * ns_per_second"

definition fresh_world :: world where
  "fresh_world =
     \<lparr>npm_ok = (\<lambda>k args. True),
      package_version = (\<lambda>t. Some (''1.0.0-'' @ forthcomingDate t)),
      commit_short = (\<lambda>t. Some ''abc1234''),
      npm_view = (\<lambda>t. QueryFailed)\<rparr>"

definition published_world :: world where
  "published_world =
     fresh_world\<lparr>npm_view := (\<lambda>t. Times [(''created'', ''2023-10-02T03:00:00.000Z''),
                                          (''0.9.0-20231002-fedcba9'', ''2023-10-02T03:00:00.000Z'')])\<rparr>"

text \<open>A world in which the real publish script fails and its dry run succeeds.\<close>

definition rejecting_world :: world where
  "rejecting_world = fresh_world\<lparr>npm_ok := (\<lambda>k args. args \<noteq> publish_args)\<rparr>"

text \<open>A world in which the dry-run publish script fails.\<close>

definition unpublishable_world :: world where
  "unpublishable_world = fresh_world\<lparr>npm_ok := (\<lambda>k args. args \<noteq> dry_run_args)\<rparr>"

definition dry_argv :: argv where
  "dry_argv = \<lparr>argv_dryRun = True, argv_continue = False, argv_verbose = 0\<rparr>"

definition start_state :: run_state where
  "start_state = \<lparr>executed = [], logged = []\<rparr>"

text \<open>
  A world in which every stage of \<^verbatim>\<open>init\<close> succeeds; the same world with a package
  manager that cannot be spawned; and the same world with an extraction that
  exits with the code 1.
\<close>

definition sample_world :: inv_world where
  "sample_world =
     \<lparr>path_exists = (\<lambda>p. True),
      execFile = (\<lambda>prog args. Some (if prog = ''git'' \<and> take 1 args = [''rev-list'']
                                      then ''0123abc'' @ [newline] else [])),
      readFile = (\<lambda>p. Some redirects_sample),
      spawn = (\<lambda>prog args. Closed [''[1, '', ''2]''] [''warning: '', ''slow''] (Some 0))\<rparr>"

definition unspawnable_world :: inv_world where
  "unspawnable_world = sample_world\<lparr>spawn := (\<lambda>prog args. SpawnError ''spawn npm ENOENT'')\<rparr>"

definition failing_world :: inv_world where
  "failing_world =
     sample_world\<lparr>spawn := (\<lambda>prog args. Closed [] [''error: '', ''no content''] (Some 1))\<rparr>"

definition sample_inventory :: inventory where
  "sample_inventory = new_inventory ''mdn/content'' ''.mdn-content''"

section \<open>Properties of the inventory\<close>

lemma checkout_target_eq: "checkout_target d = toZonedDateTime d 0"
proof -
  have "(days_from_civil d * ns_per_day + 1 * ns_per_second) mod ns_per_day = ns_per_second"
    by (simp add: ns_per_day_def ns_per_second_def)
  then show ?thesis
    unfolding checkout_target_def startOfDay_def toZonedDateTime_def by simp
qed

text \<open>
  C1. The claim: the cutoff of \<^verbatim>\<open>checkout\<close> is the start of the target day in UTC plus one
  second. The code asks for the wall-clock time 00:00:01 and then calls
  \<^verbatim>\<open>startOfDay()\<close>, which discards it: for every date the cutoff is midnight itself and
  differs from midnight plus one second; for 2023-10-05 it is 1696464000 seconds after
  the epoch, printed as \<^verbatim>\<open>2023-10-05T00:00:00+00:00[UTC]\<close>.
\<close>

theorem checkout_target_is_midnight:
  "checkout_target d = toZonedDateTime d 0 \<and>
   checkout_target d \<noteq> toZonedDateTime d 0 + ns_per_second \<and>
   checkout_target \<lparr>pd_year = 2023, pd_month = 10, pd_day = 5\<rparr> = 1696464000 * ns_per_second \<and>
   zdt_toString (checkout_target \<lparr>pd_year = 2023, pd_month = 10, pd_day = 5\<rparr>) =
     ''2023-10-05T00:00:00+00:00[UTC]''"
proof -
  have a: "checkout_target x = toZonedDateTime x 0" for x
    by (rule checkout_target_eq)
  have b: "checkout_target d \<noteq> toZonedDateTime d 0 + ns_per_second"
    unfolding a by (simp add: ns_per_second_def)
  have c: "checkout_target \<lparr>pd_year = 2023, pd_month = 10, pd_day = 5\<rparr> = 1696464000 * ns_per_second"
    by code_simp
  have d: "zdt_toString (1696464000 * ns_per_second) = ''2023-10-05T00:00:00+00:00[UTC]''"
    by code_simp
  show ?thesis using a b c d by simp
qed

subsection \<open>The redirect table\<close>

lemma str_startsWith_slash: "str_startsWith line ''/'' \<longleftrightarrow> line \<noteq> [] \<and> hd line = CHR ''/''"
  by (cases line) (auto simp: str_startsWith_def)

lemma str_includes_iff: "str_includes s n \<longleftrightarrow> (\<exists>ps ss. s = ps @ n @ ss)"
proof (induction s)
  case Nil
  then show ?case by auto
next
  case (Cons c cs)
  show ?case
  proof
    assume "str_includes (c # cs) n"
    then consider "prefix n (c # cs)" | "str_includes cs n" by auto
    then show "\<exists>ps ss. c # cs = ps @ n @ ss"
    proof cases
      case 1
      then obtain ss where "c # cs = n @ ss" by (auto simp: prefix_def)
      then have "c # cs = [] @ n @ ss" by simp
      then show ?thesis by blast
    next
      case 2
      with Cons.IH obtain ps ss where "cs = ps @ n @ ss" by blast
      then have "c # cs = (c # ps) @ n @ ss" by simp
      then show ?thesis by blast
    qed
  next
    assume "\<exists>ps ss. c # cs = ps @ n @ ss"
    then obtain ps ss where e: "c # cs = ps @ n @ ss" by blast
    show "str_includes (c # cs) n"
    proof (cases ps)
      case Nil
      with e have "prefix n (c # cs)" by (simp add: prefix_def)
      then show ?thesis by simp
    next
      case (Cons p ps')
      with e have "cs = ps' @ n @ ss" by simp
      with Cons.IH have "str_includes cs n" by blast
      then show ?thesis by simp
    qed
  qed
qed

lemma str_includes_char: "str_includes s [c] \<longleftrightarrow> c \<in> set s"
  by (induction s) auto

lemma split_on_nonempty: "split_on sep s \<noteq> []"
  by (induction s) (auto split: list.splits)

lemma split_on_unfold:
  "split_on sep s =
     takeWhile (\<lambda>c. c \<noteq> sep) s #
     (case dropWhile (\<lambda>c. c \<noteq> sep) s of [] \<Rightarrow> [] | _ # r \<Rightarrow> split_on sep r)"
  by (induction s) (auto split: list.splits simp: split_on_nonempty)

lemma split_limit_two:
  assumes "tab \<in> set line"
  shows "split_limit tab 2 line = [first_field line, second_field line]"
proof -
  from assms obtain r where d: "dropWhile (\<lambda>c. c \<noteq> tab) line = tab # r"
    by (metis (mono_tags, lifting) dropWhile_eq_Nil_conv hd_dropWhile list.collapse)
  have "split_on tab line = first_field line # split_on tab r"
    using split_on_unfold [of tab line] d by (simp add: first_field_def)
  moreover obtain rest where "split_on tab r = second_field line # rest"
    using split_on_unfold [of tab r] d by (simp add: second_field_def)
  ultimately have "take 2 (split_on tab line) = [first_field line, second_field line]"
    by (simp add: numeral_2_eq_2)
  then show ?thesis by (simp add: split_limit_def)
qed

lemma map_of_map_set: "map_of (map_set m k v) = (map_of m)(k \<mapsto> v)"
  by (induction m k v rule: map_set.induct) (auto simp: fun_eq_iff)

lemma keys_map_set:
  "map fst (map_set m k v) = (if k \<in> set (map fst m) then map fst m else map fst m @ [k])"
  by (induction m k v rule: map_set.induct) auto

lemma distinct_map_set: "distinct (map fst m) \<Longrightarrow> distinct (map fst (map_set m k v))"
  by (simp add: keys_map_set)

lemma redirect_step_retained:
  assumes "tab \<in> set line"
  shows "redirect_step m line =
     (if first_field line \<noteq> [] \<and> second_field line \<noteq> []
      then map_set m (first_field line) (second_field line) else m)"
  using assms by (simp add: redirect_step_def split_limit_two)

lemma insert_entry_pair: "insert_entry m (s, t) = m(s \<mapsto> t)"
  by (simp add: insert_entry_def)

lemma map_of_foldl_redirect_step:
  assumes "\<forall>l \<in> set ls. tab \<in> set l"
  shows "map_of (foldl redirect_step m ls) =
     foldl insert_entry (map_of m)
       (map (\<lambda>line. (first_field line, second_field line))
          (filter (\<lambda>line. first_field line \<noteq> [] \<and> second_field line \<noteq> []) ls))"
  using assms
proof (induction ls arbitrary: m)
  case Nil
  then show ?case by simp
next
  case (Cons l ls)
  then have t: "tab \<in> set l" and r: "\<forall>l \<in> set ls. tab \<in> set l" by auto
  show ?case
  proof (cases "first_field l \<noteq> [] \<and> second_field l \<noteq> []")
    case True
    then have s: "redirect_step m l = map_set m (first_field l) (second_field l)"
      by (simp add: redirect_step_retained [OF t])
    have "map_of (redirect_step m l) = insert_entry (map_of m) (first_field l, second_field l)"
      unfolding s map_of_map_set insert_entry_pair ..
    with True Cons.IH [OF r, of "redirect_step m l"] show ?thesis by simp
  next
    case False
    then have "redirect_step m l = m"
      by (auto simp: redirect_step_retained [OF t])
    with False Cons.IH [OF r, of m] show ?thesis by auto
  qed
qed

lemma distinct_foldl_redirect_step:
  assumes "\<forall>l \<in> set ls. tab \<in> set l" and "distinct (map fst m)"
  shows "distinct (map fst (foldl redirect_step m ls))"
  using assms
proof (induction ls arbitrary: m)
  case Nil
  then show ?case by simp
next
  case (Cons l ls)
  then have t: "tab \<in> set l" and r: "\<forall>l \<in> set ls. tab \<in> set l" by auto
  have "distinct (map fst (redirect_step m l))"
    using Cons.prems(2) by (simp add: redirect_step_retained [OF t] distinct_map_set)
  with Cons.IH [OF r] show ?case by simp
qed

lemma redirects_loaded:
  assumes "rawRedirects self = Some raw"
  shows "\<exists>m. redirects self = Inr m \<and> map_of m = spec_redirect_table raw \<and> distinct (map fst m)"
proof -
  let ?ls = "filter (\<lambda>line. str_startsWith line ''/'' \<and> str_includes line [tab]) (split_on newline raw)"
  have a: "\<forall>l \<in> set ?ls. tab \<in> set l" by (auto simp: str_includes_char)
  have f: "filter (\<lambda>line. first_field line \<noteq> [] \<and> second_field line \<noteq> []) ?ls =
     filter (\<lambda>line. retained line \<and> first_field line \<noteq> [] \<and> second_field line \<noteq> []) (split_on newline raw)"
    by (auto simp: retained_def str_startsWith_slash str_includes_char intro: filter_cong)
  have r: "redirects self = Inr (foldl redirect_step [] ?ls)"
    using assms by (simp add: redirects_def)
  show ?thesis
    using map_of_foldl_redirect_step [OF a, of "[]"] distinct_foldl_redirect_step [OF a, of "[]"] r f
    by (simp add: spec_redirect_table_def spec_entries_def)
qed

lemma split_on_no_sep: "f \<in> set (split_on sep s) \<Longrightarrow> sep \<notin> set f"
  by (induction s arbitrary: f) (auto split: if_splits list.splits)

lemma split_on_join: "tl (concat (map ((#) sep) (split_on sep s))) = s"
  by (induction s) (auto split: list.splits simp: split_on_nonempty)

text \<open>
  C6. For every raw redirect text, \<^verbatim>\<open>redirects()\<close> returns the table that the
  specification describes: the entries of the returned object, whose keys are
  distinct, are those of \<open>spec_redirect_table\<close>. The result depends on the text
  alone: two inventories holding the same text return the same table.
\<close>

theorem redirects_refines_spec:
  assumes "rawRedirects self = Some raw" and "rawRedirects other = Some raw"
  shows "\<exists>m. redirects self = Inr m \<and> redirects other = Inr m \<and>
             map_of m = spec_redirect_table raw \<and> distinct (map fst m)"
proof -
  have "redirects other = redirects self"
    using assms by (simp add: redirects_def)
  with redirects_loaded [OF assms(1)] show ?thesis by auto
qed

text \<open>The sample file evaluated.\<close>

lemma redirects_sample_eval:
  "redirects (new_inventory r d\<lparr>rawRedirects := Some redirects_sample\<rparr>) =
     Inr [(''/old/path'', ''/newer/path''), (''/b'', ''/c'')]"
  by (simp add: redirects_def redirects_sample_def new_inventory_def tab_def newline_def
      str_startsWith_def redirect_step_def split_limit_def numeral_2_eq_2)

theorem redirects_refines_spec_witness:
  "redirects (new_inventory ''mdn/content'' ''.mdn-content''\<lparr>rawRedirects := Some redirects_sample\<rparr>) =
     Inr [(''/old/path'', ''/newer/path''), (''/b'', ''/c'')] \<and>
   redirects (new_inventory ''other/repo'' ''elsewhere''\<lparr>rawRedirects := Some redirects_sample\<rparr>) =
     Inr [(''/old/path'', ''/newer/path''), (''/b'', ''/c'')] \<and>
   spec_redirect_table redirects_sample = map_of [(''/old/path'', ''/newer/path''), (''/b'', ''/c'')]"
  using redirects_refines_spec
    [of "new_inventory ''mdn/content'' ''.mdn-content''\<lparr>rawRedirects := Some redirects_sample\<rparr>"
        redirects_sample
        "new_inventory ''other/repo'' ''elsewhere''\<lparr>rawRedirects := Some redirects_sample\<rparr>"]
  by (auto simp: redirects_sample_eval)

subsection \<open>Loading\<close>

lemma installDeps_keeps: "rawRedirects (snd (installDeps w self)) = rawRedirects self"
  by (simp add: installDeps_def log_call_def Let_def split: option.splits)

lemma loadInventory_keeps: "rawRedirects (snd (loadInventory w self)) = rawRedirects self"
  by (simp add: loadInventory_def split: spawned.splits)

lemma loadRedirects_loads:
  "fst (loadRedirects w self) = None \<Longrightarrow> rawRedirects (snd (loadRedirects w self)) \<noteq> None"
  by (simp add: loadRedirects_def split: option.splits)

lemma prepare_loads:
  assumes "fst (prepare w ref date self) = None"
  shows "rawRedirects (snd (prepare w ref date self)) \<noteq> None"
proof -
  obtain e1 s1 where c1: "clone w self = (e1, s1)" by (cases "clone w self")
  obtain e2 s2 where c2: "checkout w ref date s1 = (e2, s2)" by (cases "checkout w ref date s1")
  obtain e3 s3 where c3: "loadRedirects w s2 = (e3, s3)" by (cases "loadRedirects w s2")
  from assms c1 c2 c3 have ok: "e1 = None" "e2 = None" "e3 = None"
    by (auto simp: prepare_def split: option.splits)
  from c3 ok have l3: "rawRedirects s3 \<noteq> None"
    using loadRedirects_loads [of w s2] by simp
  from c1 c2 c3 ok have "prepare w ref date self = installDeps w s3"
    by (simp add: prepare_def)
  with l3 show ?thesis by (simp add: installDeps_keeps)
qed

lemma init_ok_prepared:
  "fst (init w ref date self) = None \<Longrightarrow>
     fst (prepare w ref date self) = None \<and>
     snd (init w ref date self) = snd (loadInventory w (snd (prepare w ref date self)))"
  by (cases "prepare w ref date self")
    (auto simp: init_def split: option.splits sum.splits prod.splits if_splits)

lemma init_loads:
  assumes "fst (init w ref date self) = None"
  shows "rawRedirects (snd (init w ref date self)) \<noteq> None"
  using init_ok_prepared [OF assms] prepare_loads [of w ref date self]
  by (simp add: loadInventory_keeps)

text \<open>
  C10. \<^verbatim>\<open>redirects()\<close> throws when the raw text has not been loaded, as it is in a
  new inventory, and returns a table for every text once it is loaded: whenever
  \<^verbatim>\<open>rawRedirects\<close> is set, and in particular after a \<^verbatim>\<open>loadRedirects\<close> or an
  \<^verbatim>\<open>init\<close> that has not thrown.
\<close>

theorem redirects_throws_iff_not_loaded:
  "redirects (new_inventory r d) = Inl RedirectsNotLoaded \<and>
   (rawRedirects self = None \<longrightarrow> redirects self = Inl RedirectsNotLoaded) \<and>
   (rawRedirects self \<noteq> None \<longrightarrow> (\<exists>m. redirects self = Inr m)) \<and>
   (fst (loadRedirects w self) = None \<longrightarrow> (\<exists>m. redirects (snd (loadRedirects w self)) = Inr m)) \<and>
   (fst (init w ref date self) = None \<longrightarrow> (\<exists>m. redirects (snd (init w ref date self)) = Inr m))"
proof -
  have a: "rawRedirects x = None \<Longrightarrow> redirects x = Inl RedirectsNotLoaded" for x
    by (simp add: redirects_def)
  have b: "rawRedirects x \<noteq> None \<Longrightarrow> \<exists>m. redirects x = Inr m" for x
    by (auto simp: redirects_def)
  have c: "rawRedirects (new_inventory r d) = None"
    by (simp add: new_inventory_def)
  show ?thesis
    using a [OF c] a [of self] b [of self] b [OF loadRedirects_loads] b [OF init_loads]
    by blast
qed


lemma stage_errors:
  "fst (clone w self) \<noteq> Some LoadFailed"
  "fst (checkout w ref date self) \<noteq> Some LoadFailed"
  "fst (loadRedirects w self) \<noteq> Some LoadFailed"
  "fst (installDeps w self) \<noteq> Some LoadFailed"
  by (simp_all add: clone_def checkout_def switch_to_def loadRedirects_def installDeps_def Let_def
      split: option.splits)

lemma prepare_error: "fst (prepare w ref date self) \<noteq> Some LoadFailed"
proof -
  obtain e1 s1 where c1: "clone w self = (e1, s1)" by (cases "clone w self")
  obtain e2 s2 where c2: "checkout w ref date s1 = (e2, s2)" by (cases "checkout w ref date s1")
  obtain e3 s3 where c3: "loadRedirects w s2 = (e3, s3)" by (cases "loadRedirects w s2")
  show ?thesis
    using c1 c2 c3 stage_errors(1) [of w self] stage_errors(2) [of w ref date s1]
      stage_errors(3) [of w s2] stage_errors(4) [of w s3]
    by (auto simp: prepare_def split: option.splits)
qed

lemma init_prepared:
  assumes "prepare w ref date self = (None, s4)"
  shows "init w ref date self =
     (case spawn w ''npm'' inventory_args of
        SpawnError e \<Rightarrow> (Some (SpawnFailed e), s4)
      | Closed outs errs code \<Rightarrow>
          (if code = Some 0
           then (None, s4\<lparr>rawInventoryStdOut := rawInventoryStdOut s4 @ concat outs,
                           rawInventoryStdErr := rawInventoryStdErr s4 @ concat errs\<rparr>)
           else (Some LoadFailed,
                 s4\<lparr>rawInventoryStdOut := rawInventoryStdOut s4 @ concat outs,
                     rawInventoryStdErr := rawInventoryStdErr s4 @ concat errs,
                     logger := logger s4 @ [(Error, rawInventoryStdErr s4 @ concat errs)]\<rparr>)))"
  using assms
  by (auto simp: init_def loadInventory_def load_failed_def log_call_def
      split: spawned.splits option.splits)

lemma init_not_prepared:
  assumes "fst (prepare w ref date self) \<noteq> None"
  shows "init w ref date self = prepare w ref date self"
  using assms by (cases "prepare w ref date self") (auto simp: init_def)

text \<open>The stages in the sample world, whatever the extraction does.\<close>

lemma sample_prepare:
  "prepare (sample_world\<lparr>spawn := f\<rparr>) ''main'' None sample_inventory =
     (None, sample_inventory\<lparr>
        logger := [(Info, ''Reusing existing clone at .mdn-content''),
                   (Debug, ''Fetching from origin''), (Info, ''Checking out main''),
                   (Info, ''Installing dependencies...'')],
        rawRedirects := Some redirects_sample\<rparr>)"
  by (simp add: prepare_def clone_def checkout_def switch_to_def loadRedirects_def installDeps_def
      log_call_def sample_world_def sample_inventory_def new_inventory_def)

lemma sample_init:
  "init sample_world ''main'' None sample_inventory =
     (None, sample_inventory\<lparr>
        logger := [(Info, ''Reusing existing clone at .mdn-content''),
                   (Debug, ''Fetching from origin''), (Info, ''Checking out main''),
                   (Info, ''Installing dependencies...'')],
        rawInventoryStdErr := ''warning: slow'', rawInventoryStdOut := ''[1, 2]'',
        rawRedirects := Some redirects_sample\<rparr>)"
proof -
  have "sample_world = sample_world\<lparr>spawn := spawn sample_world\<rparr>"
    by simp
  then have "prepare sample_world ''main'' None sample_inventory =
     (None, sample_inventory\<lparr>
        logger := [(Info, ''Reusing existing clone at .mdn-content''),
                   (Debug, ''Fetching from origin''), (Info, ''Checking out main''),
                   (Info, ''Installing dependencies...'')],
        rawRedirects := Some redirects_sample\<rparr>)"
    using sample_prepare [of "spawn sample_world"] by simp
  then show ?thesis
    by (simp add: init_prepared sample_world_def sample_inventory_def new_inventory_def)
qed

lemma redirects_depends_on_text: "rawRedirects a = rawRedirects b \<Longrightarrow> redirects a = redirects b"
  by (simp add: redirects_def)

theorem redirects_throws_iff_not_loaded_witness:
  "redirects sample_inventory = Inl RedirectsNotLoaded \<and>
   rawRedirects sample_inventory = None \<and>
   fst (init sample_world ''main'' None sample_inventory) = None \<and>
   rawRedirects (snd (init sample_world ''main'' None sample_inventory)) \<noteq> None \<and>
   redirects (snd (init sample_world ''main'' None sample_inventory)) =
     Inr [(''/old/path'', ''/newer/path''), (''/b'', ''/c'')]"
proof -
  have l: "rawRedirects (snd (init sample_world ''main'' None sample_inventory)) = Some redirects_sample"
    by (simp add: sample_init)
  have e: "redirects (snd (init sample_world ''main'' None sample_inventory)) =
     Inr [(''/old/path'', ''/newer/path''), (''/b'', ''/c'')]"
    using redirects_depends_on_text
      [of "snd (init sample_world ''main'' None sample_inventory)"
          "new_inventory ''mdn/content'' ''.mdn-content''\<lparr>rawRedirects := Some redirects_sample\<rparr>"]
      redirects_sample_eval [of "''mdn/content''" "''.mdn-content''"] l
    by simp
  have n: "rawRedirects sample_inventory = None"
    by (simp add: sample_inventory_def new_inventory_def)
  have f: "fst (init sample_world ''main'' None sample_inventory) = None"
    by (simp add: sample_init)
  show ?thesis
    using redirects_throws_iff_not_loaded
      [of "''mdn/content''" "''.mdn-content''" sample_inventory sample_world "''main''" None]
      e l n f
    by simp
qed

text \<open>
  C8. The claim: \<^verbatim>\<open>init\<close> fails with the extraction error exactly when the exit
  status of the subprocess is non-zero or unknown (the process could not start),
  and then surfaces the captured standard error. As amended: \<^verbatim>\<open>init\<close> throws the
  error "Failed to load data" exactly when the stages before the extraction have
  succeeded and the subprocess closes with an exit code that is \<^verbatim>\<open>null\<close> or not zero,
  and it has then logged the whole standard-error buffer at the level \<^verbatim>\<open>error\<close>;
  when the code is zero it returns, with the output appended to its buffer and
  nothing more logged; when the process cannot be spawned, \<^verbatim>\<open>loadInventory\<close> rejects
  and \<^verbatim>\<open>init\<close> throws that spawn error, with nothing logged.
\<close>

theorem init_extraction_outcome:
  "(fst (init w ref date self) = Some LoadFailed \<longleftrightarrow>
      fst (prepare w ref date self) = None \<and>
      (\<exists>outs errs code. spawn w ''npm'' inventory_args = Closed outs errs code \<and> code \<noteq> Some 0)) \<and>
   (fst (prepare w ref date self) = None \<longrightarrow>
      (\<forall>outs errs code. spawn w ''npm'' inventory_args = Closed outs errs code \<and> code \<noteq> Some 0 \<longrightarrow>
         logger (snd (init w ref date self)) =
           logger (snd (prepare w ref date self)) @
           [(Error, rawInventoryStdErr (snd (prepare w ref date self)) @ concat errs)]) \<and>
      (\<forall>outs errs. spawn w ''npm'' inventory_args = Closed outs errs (Some 0) \<longrightarrow>
         fst (init w ref date self) = None \<and>
         logger (snd (init w ref date self)) = logger (snd (prepare w ref date self)) \<and>
         rawInventoryStdOut (snd (init w ref date self)) =
           rawInventoryStdOut (snd (prepare w ref date self)) @ concat outs) \<and>
      (\<forall>e. spawn w ''npm'' inventory_args = SpawnError e \<longrightarrow>
         init w ref date self = (Some (SpawnFailed e), snd (prepare w ref date self))))"
proof (cases "fst (prepare w ref date self) = None")
  case False
  then show ?thesis
    using prepare_error [of w ref date self] by (auto simp: init_not_prepared)
next
  case True
  then have p: "prepare w ref date self = (None, snd (prepare w ref date self))"
    by (simp add: prod_eq_iff)
  show ?thesis
    unfolding init_prepared [OF p] using True
    by (cases "spawn w ''npm'' inventory_args") auto
qed


text \<open>
  The claim fails where the process cannot start: \<^verbatim>\<open>init\<close> throws the spawn error,
  not the extraction error, and makes no call of \<^verbatim>\<open>logger.error\<close>.
\<close>

theorem init_spawn_error_counterexample:
  "fst (init unspawnable_world ''main'' None sample_inventory) = Some (SpawnFailed ''spawn npm ENOENT'') \<and>
   fst (init unspawnable_world ''main'' None sample_inventory) \<noteq> Some LoadFailed \<and>
   filter (\<lambda>entry. fst entry = Error)
     (logger (snd (init unspawnable_world ''main'' None sample_inventory))) = []"
  by (simp add: init_def prepare_def clone_def checkout_def switch_to_def loadRedirects_def
      installDeps_def loadInventory_def load_failed_def log_call_def sample_world_def
      sample_inventory_def unspawnable_world_def new_inventory_def)

theorem init_extraction_outcome_witness:
  "fst (prepare failing_world ''main'' None sample_inventory) = None \<and>
   fst (init failing_world ''main'' None sample_inventory) = Some LoadFailed \<and>
   last (logger (snd (init failing_world ''main'' None sample_inventory))) =
     (Error, ''error: no content'') \<and>
   fst (init sample_world ''main'' None sample_inventory) = None \<and>
   rawInventoryStdOut (snd (init sample_world ''main'' None sample_inventory)) = ''[1, 2]'' \<and>
   fst (init unspawnable_world ''main'' None sample_inventory) =
     Some (SpawnFailed ''spawn npm ENOENT'')"
proof -
  have w0: "sample_world = sample_world\<lparr>spawn := spawn sample_world\<rparr>"
    by simp
  have q1: "fst (prepare failing_world ''main'' None sample_inventory) = None"
    "rawInventoryStdErr (snd (prepare failing_world ''main'' None sample_inventory)) = []"
    unfolding failing_world_def sample_prepare
    by (simp_all add: sample_inventory_def new_inventory_def)
  have q0: "fst (prepare sample_world ''main'' None sample_inventory) = None"
    "rawInventoryStdOut (snd (prepare sample_world ''main'' None sample_inventory)) = []"
    using sample_prepare [of "spawn sample_world", folded w0]
    by (simp_all add: sample_inventory_def new_inventory_def)
  have q2: "fst (prepare unspawnable_world ''main'' None sample_inventory) = None"
    unfolding unspawnable_world_def sample_prepare by simp
  have p1: "spawn failing_world ''npm'' inventory_args =
      Closed [] [''error: '', ''no content''] (Some 1)"
    by (simp add: failing_world_def)
  have p0: "spawn sample_world ''npm'' inventory_args =
      Closed [''[1, '', ''2]''] [''warning: '', ''slow''] (Some 0)"
    by (simp add: sample_world_def)
  have p2: "spawn unspawnable_world ''npm'' inventory_args = SpawnError ''spawn npm ENOENT''"
    by (simp add: unspawnable_world_def)
  have t1: "fst (init failing_world ''main'' None sample_inventory) = Some LoadFailed \<and>
      last (logger (snd (init failing_world ''main'' None sample_inventory))) =
        (Error, ''error: no content'')"
    using init_extraction_outcome [of failing_world "''main''" None sample_inventory] q1 p1
    by simp
  have t0: "fst (init sample_world ''main'' None sample_inventory) = None \<and>
      rawInventoryStdOut (snd (init sample_world ''main'' None sample_inventory)) = ''[1, 2]''"
    using init_extraction_outcome [of sample_world "''main''" None sample_inventory] q0 p0
    by simp
  have t2: "fst (init unspawnable_world ''main'' None sample_inventory) =
      Some (SpawnFailed ''spawn npm ENOENT'')"
    using init_extraction_outcome [of unspawnable_world "''main''" None sample_inventory] q2 p2
    by simp
  show ?thesis
    using t0 t1 t2 q1(1) by simp
qed

section \<open>Properties of the driver\<close>

subsection \<open>The duplicate check\<close>

lemma published_message_nonempty: "published_message d h v \<noteq> []"
  by (simp add: published_message_def)

lemma check_published_foldl:
  "foldl (\<lambda>alreadyPublished v.
            if str_includes v d \<or> str_includes v h then Some msg else alreadyPublished)
     acc versions =
   (if \<exists>v \<in> set versions. str_includes v d \<or> str_includes v h then Some msg else acc)"
  by (induction versions arbitrary: acc) auto

lemma check_published_eq:
  "check_published versions d h v =
     (if \<exists>k \<in> set versions. str_includes k d \<or> str_includes k h
      then Some (published_message d h v) else None)"
  unfolding check_published_def by (rule check_published_foldl)

lemma truthy_check_published:
  "truthy (check_published versions d h v) \<longleftrightarrow>
     (\<exists>k \<in> set versions. str_includes k d \<or> str_includes k h)"
  by (simp add: check_published_eq truthy_def published_message_nonempty)

text \<open>
  C2. The duplicate check of lines 71 to 81 finds a match (the test
  \<^verbatim>\<open>if (alreadyPublished)\<close> succeeds) if and only if some published version key
  contains the date stamp or the short hash of the candidate as a substring. A set
  with the key \<^verbatim>\<open>1.2.3-20231005-abc1234\<close> matches the date stamp \<^verbatim>\<open>20231005\<close>; a
  candidate with another date stamp and another hash does not match it.
\<close>

theorem duplicate_check_is_substring_match:
  "(truthy (check_published versions date hash version) \<longleftrightarrow>
      (\<exists>k \<in> set versions. (\<exists>ps ss. k = ps @ date @ ss) \<or> (\<exists>ps ss. k = ps @ hash @ ss))) \<and>
   truthy (check_published (''1.2.3-20231005-abc1234'' # versions) ''20231005'' hash version) \<and>
   \<not> truthy (check_published [''1.2.3-20231005-abc1234''] ''20231006'' ''def5678'' version)"
proof -
  have a: "truthy (check_published versions date hash version) \<longleftrightarrow>
      (\<exists>k \<in> set versions. (\<exists>ps ss. k = ps @ date @ ss) \<or> (\<exists>ps ss. k = ps @ hash @ ss))"
    by (simp add: truthy_check_published str_includes_iff)
  have "str_includes ''1.2.3-20231005-abc1234'' ''20231005''"
    by simp
  then have b: "truthy (check_published (''1.2.3-20231005-abc1234'' # versions) ''20231005'' hash version)"
    unfolding truthy_check_published by simp
  have c: "\<not> truthy (check_published [''1.2.3-20231005-abc1234''] ''20231006'' ''def5678'' version)"
    unfolding truthy_check_published by simp
  show ?thesis using a b c by blast
qed

theorem duplicate_check_is_substring_match_witness:
  "truthy (check_published [''created'', ''1.2.3-20231005-abc1234''] ''20231005'' ''def5678'' ''1.2.4'') \<and>
   ''1.2.3-20231005-abc1234'' = ''1.2.3-'' @ ''20231005'' @ ''-abc1234'' \<and>
   check_published [''created'', ''1.2.3-20231005-abc1234''] ''20231005'' ''def5678'' ''1.2.4'' =
     Some ''20231005 or def5678 is already published as 1.2.4''"
proof -
  have "\<exists>k \<in> set [''created'', ''1.2.3-20231005-abc1234''].
      (\<exists>ps ss. k = ps @ ''20231005'' @ ss) \<or> (\<exists>ps ss. k = ps @ ''def5678'' @ ss)"
  proof -
    have "''1.2.3-20231005-abc1234'' = ''1.2.3-'' @ ''20231005'' @ ''-abc1234''" by simp
    then show ?thesis by (metis list.set_intros(1,2))
  qed
  then have "truthy (check_published [''created'', ''1.2.3-20231005-abc1234''] ''20231005'' ''def5678'' ''1.2.4'')"
    using duplicate_check_is_substring_match
      [of "[''created'', ''1.2.3-20231005-abc1234'']" "''20231005''" "''def5678''" "''1.2.4''"]
    by blast
  moreover have "check_published [''created'', ''1.2.3-20231005-abc1234''] ''20231005'' ''def5678'' ''1.2.4'' =
     Some ''20231005 or def5678 is already published as 1.2.4''"
    by (simp add: check_published_def published_message_def)
  ultimately show ?thesis by simp
qed

subsection \<open>One iteration\<close>

lemma npmRun_plain:
  "npmRun w command [] st =
     (if npm_ok w (length (executed st)) [''run'', command] then None
      else Some (ExecError [''run'', command]),
      st\<lparr>executed := executed st @ [[''run'', command]]\<rparr>)"
  by (simp add: npmRun_def Let_def)

lemma npmRun_build:
  "npmRun w ''build'' [''--date='' @ zdt_toString target] st =
     (if npm_ok w (length (executed st)) (build_args target) then None
      else Some (ExecError (build_args target)),
      st\<lparr>executed := executed st @ [build_args target]\<rparr>)"
  by (simp add: npmRun_def build_args_def Let_def)

lemma build_candidate_done:
  assumes "build_candidate w target st0 = (Inr (v, h), st)"
  shows "st = st0\<lparr>executed := executed st0 @ [clean_args, build_args target]\<rparr>"
  using assms unfolding build_candidate_def npmRun_build npmRun_plain
  by (auto simp: clean_args_def split: if_splits option.splits)

lemma completedReleases_eq:
  "completedReleases w target st =
     (Inr (case completedReleases_try w target of Inl e \<Rightarrow> [] | Inr ts \<Rightarrow> ts),
      st\<lparr>executed := executed st @ [view_args]\<rparr>)"
  by (simp add: completedReleases_def split: sum.splits)

lemma decide_eq:
  "decide w cfg (check_published versions d h v) st =
     (if truthy (check_published versions d h v) then
        (if argv_continue cfg
         then (None, log_run Warn (published_message d h v @ ''; skipping this release'') st)
         else (Some (DuplicateError (published_message d h v)), st))
      else (if npm_ok w (length (executed st)) (publish_script cfg) then None
            else Some (ExecError (publish_script cfg)),
            st\<lparr>executed := executed st @ [publish_script cfg]\<rparr>))"
  by (auto simp: decide_def check_published_eq truthy_def published_message_nonempty
      npmRun_plain publish_script_def dry_run_args_def publish_args_def)

text \<open>The iteration from the registry query on: first by the decision, then by cases.\<close>

lemma publish_candidate_eq:
  "publish_candidate w cfg target v h st =
     (case decide w cfg
             (check_published (seen_versions w target) (forthcomingDate target) h v)
             (st\<lparr>logged := logged st @ [(Debug, attempt_message (forthcomingDate target) h v)],
                 executed := executed st @ [view_args]\<rparr>) of
        (Some e, st3) \<Rightarrow> (Some e, st3)
      | (None, st3) \<Rightarrow> npmRun w ''clean'' [] st3)"
  by (simp add: publish_candidate_def completedReleases_eq seen_versions_def log_run_def)

lemma publish_candidate_cases:
  "publish_candidate w cfg target v h st =
     (let d = forthcomingDate target;
          st2 = st\<lparr>logged := logged st @ [(Debug, attempt_message d h v)],
                    executed := executed st @ [view_args]\<rparr>
      in if matched w target v h then
           (if argv_continue cfg
            then npmRun w ''clean'' []
                   (st2\<lparr>logged := logged st2 @ [(Warn, published_message d h v @ ''; skipping this release'')]\<rparr>)
            else (Some (DuplicateError (published_message d h v)), st2))
         else
           (if npm_ok w (Suc (length (executed st))) (publish_script cfg)
            then npmRun w ''clean'' [] (st2\<lparr>executed := executed st2 @ [publish_script cfg]\<rparr>)
            else (Some (ExecError (publish_script cfg)),
                  st2\<lparr>executed := executed st2 @ [publish_script cfg]\<rparr>)))"
  by (simp add: publish_candidate_eq decide_eq matched_def log_run_def Let_def)


lemma iteration_built:
  assumes "build_candidate w target st0 = (Inr (v, h), st)"
  shows "iteration w cfg target st0 = publish_candidate w cfg target v h st"
  using assms by (simp add: iteration_def)

lemma failed_query_no_versions:
  assumes "npm_view w target = QueryFailed \<or> npm_view w target = NotJSON"
  shows "seen_versions w target = []"
  using assms by (auto simp: seen_versions_def completedReleases_try_def)

lemma no_versions_no_match: "seen_versions w target = [] \<Longrightarrow> \<not> matched w target v h"
  by (simp add: matched_def check_published_def truthy_def)

text \<open>
  C7. \<^verbatim>\<open>completedReleases\<close> always returns: whatever the registry query does, the
  result is a value and never an error. When the query fails (the command fails or
  its output is not JSON) the value is the empty object; the candidate then matches
  nothing, and the iteration goes on to the publish script of its mode right after
  the query, without a duplicate error.
\<close>

theorem completedReleases_never_throws:
  "(\<exists>ts. fst (completedReleases w target st) = Inr ts) \<and>
   (npm_view w target = QueryFailed \<or> npm_view w target = NotJSON \<longrightarrow>
      fst (completedReleases w target st) = Inr [] \<and>
      \<not> matched w target v h \<and>
      take 2 (drop (length (executed st)) (executed (snd (publish_candidate w cfg target v h st)))) =
        [view_args, publish_script cfg] \<and>
      (\<forall>msg. fst (publish_candidate w cfg target v h st) \<noteq> Some (DuplicateError msg)))"
proof -
  have a: "\<exists>ts. fst (completedReleases w target st) = Inr ts"
    by (simp add: completedReleases_eq)
  have b: "fst (completedReleases w target st) = Inr [] \<and>
      \<not> matched w target v h \<and>
      take 2 (drop (length (executed st)) (executed (snd (publish_candidate w cfg target v h st)))) =
        [view_args, publish_script cfg] \<and>
      (\<forall>msg. fst (publish_candidate w cfg target v h st) \<noteq> Some (DuplicateError msg))"
    if f: "npm_view w target = QueryFailed \<or> npm_view w target = NotJSON"
  proof -
    have e: "fst (completedReleases w target st) = Inr []"
      using f by (auto simp: completedReleases_eq completedReleases_try_def)
    have n: "\<not> matched w target v h"
      using f by (simp add: failed_query_no_versions no_versions_no_match)
    show ?thesis
      using e n by (simp add: publish_candidate_cases npmRun_plain Let_def)
  qed
  show ?thesis using a b by blast
qed

theorem completedReleases_never_throws_witness:
  "npm_view fresh_world START_DATE = QueryFailed \<and>
   fst (completedReleases fresh_world START_DATE start_state) = Inr [] \<and>
   publish_candidate fresh_world dry_argv START_DATE ''1.0.0-20231001'' ''abc1234'' start_state =
     (None, \<lparr>executed = [view_args, dry_run_args, clean_args],
             logged = [(Debug, ''Attempting to publish for 20231001 and abc1234 as 1.0.0-20231001'')]\<rparr>)"
proof -
  have q: "npm_view fresh_world START_DATE = QueryFailed"
    by (simp add: fresh_world_def)
  have p: "publish_candidate fresh_world dry_argv START_DATE ''1.0.0-20231001'' ''abc1234'' start_state =
     (None, \<lparr>executed = [view_args, dry_run_args, clean_args],
             logged = [(Debug, ''Attempting to publish for 20231001 and abc1234 as 1.0.0-20231001'')]\<rparr>)"
    by code_simp
  show ?thesis
    using completedReleases_never_throws
      [of fresh_world START_DATE start_state "''1.0.0-20231001''" "''abc1234''" dry_argv] q p
    by simp
qed


lemma script_names_differ:
  "clean_args \<noteq> publish_args" "clean_args \<noteq> dry_run_args"
  "view_args \<noteq> publish_args" "view_args \<noteq> dry_run_args"
  "build_args t \<noteq> publish_args" "build_args t \<noteq> dry_run_args"
  "publish_args \<noteq> dry_run_args"
  by (simp_all add: clean_args_def publish_args_def dry_run_args_def view_args_def build_args_def)

text \<open>
  C4. In an iteration whose build has succeeded and whose candidate matches a
  published version: with \<^verbatim>\<open>--continue\<close> the driver logs the warning, runs only the
  clean script and, when that succeeds, goes on with the next day; without it the
  whole run fails with the error whose message names the date stamp, the short hash
  and the version of the candidate. On both paths the commands of the iteration
  are the clean and build scripts, the registry query and at most the final clean:
  neither publish script is run.
\<close>

theorem matched_candidate_skips_or_aborts:
  assumes "zdt_compare target now < 1"
    and "build_candidate w target st0 = (Inr (v, h), st)"
    and "matched w target v h"
  shows
    "let msg = published_message (forthcomingDate target) h v;
         asked = st\<lparr>logged := logged st @ [(Debug, attempt_message (forthcomingDate target) h v)],
                     executed := executed st @ [view_args]\<rparr>;
         warned = asked\<lparr>logged := logged asked @ [(Warn, msg @ ''; skipping this release'')]\<rparr>
     in (argv_continue cfg \<longrightarrow>
           iteration w cfg target st0 = npmRun w ''clean'' [] warned \<and>
           (npm_ok w (length (executed warned)) clean_args \<longrightarrow>
              main_loop w cfg now target st0 =
                main_loop w cfg now (add_days target 1)
                  (warned\<lparr>executed := executed warned @ [clean_args]\<rparr>))) \<and>
        (\<not> argv_continue cfg \<longrightarrow>
           iteration w cfg target st0 = (Some (DuplicateError msg), asked) \<and>
           main_loop w cfg now target st0 = (Some (DuplicateError msg), asked)) \<and>
        publish_args \<notin> set (drop (length (executed st0)) (executed (snd (iteration w cfg target st0)))) \<and>
        dry_run_args \<notin> set (drop (length (executed st0)) (executed (snd (iteration w cfg target st0))))"
proof -
  note it = iteration_built [OF assms(2)]
  note st = build_candidate_done [OF assms(2)]
  have loop: "main_loop w cfg now target st0 =
      (case iteration w cfg target st0 of
         (Some e, st') \<Rightarrow> (Some e, st')
       | (None, st') \<Rightarrow> main_loop w cfg now (add_days target 1) st')"
    using assms(1) by (subst main_loop.simps) simp
  show ?thesis
  proof (cases "argv_continue cfg")
    case True
    then show ?thesis
      unfolding loop unfolding it
      using assms(3)
      by (simp add: publish_candidate_cases Let_def npmRun_plain st script_names_differ
          script_names_differ [symmetric] clean_args_def [symmetric])
  next
    case False
    then show ?thesis
      unfolding loop unfolding it
      using assms(3)
      by (simp add: publish_candidate_cases Let_def st script_names_differ
          script_names_differ [symmetric])
  qed
qed


lemma oct2_facts:
  "zdt_compare (add_days START_DATE 1) scenario_now < 1"
  "forthcomingDate (add_days START_DATE 1) = ''20231002''"
  "build_candidate published_world (add_days START_DATE 1) start_state =
     (Inr (''1.0.0-20231002'', ''abc1234''),
      start_state\<lparr>executed := [clean_args, build_args (add_days START_DATE 1)]\<rparr>)"
  "matched published_world (add_days START_DATE 1) ''1.0.0-20231002'' ''abc1234''"
  by code_simp+

theorem matched_candidate_skips_or_aborts_witness:
  "zdt_compare (add_days START_DATE 1) scenario_now < 1 \<and>
   matched published_world (add_days START_DATE 1) ''1.0.0-20231002'' ''abc1234'' \<and>
   main_loop published_world dry_argv scenario_now (add_days START_DATE 1) start_state =
     (Some (DuplicateError ''20231002 or abc1234 is already published as 1.0.0-20231002''),
      \<lparr>executed = [clean_args, build_args (add_days START_DATE 1), view_args],
       logged = [(Debug, ''Attempting to publish for 20231002 and abc1234 as 1.0.0-20231002'')]\<rparr>) \<and>
   iteration published_world (dry_argv\<lparr>argv_continue := True\<rparr>) (add_days START_DATE 1) start_state =
     (None,
      \<lparr>executed = [clean_args, build_args (add_days START_DATE 1), view_args, clean_args],
       logged = [(Debug, ''Attempting to publish for 20231002 and abc1234 as 1.0.0-20231002''),
                 (Warn, ''20231002 or abc1234 is already published as 1.0.0-20231002; skipping this release'')]\<rparr>)"
proof -
  note t = matched_candidate_skips_or_aborts [OF oct2_facts(1) oct2_facts(3) oct2_facts(4)]
  have ok: "npm_ok published_world k args" for k args
    by (simp add: published_world_def fresh_world_def)
  have a: "main_loop published_world dry_argv scenario_now (add_days START_DATE 1) start_state =
     (Some (DuplicateError ''20231002 or abc1234 is already published as 1.0.0-20231002''),
      \<lparr>executed = [clean_args, build_args (add_days START_DATE 1), view_args],
       logged = [(Debug, ''Attempting to publish for 20231002 and abc1234 as 1.0.0-20231002'')]\<rparr>)"
    using t [of dry_argv]
    by (simp add: Let_def oct2_facts(2) dry_argv_def start_state_def published_message_def
        attempt_message_def)
  have b: "iteration published_world (dry_argv\<lparr>argv_continue := True\<rparr>) (add_days START_DATE 1) start_state =
     (None,
      \<lparr>executed = [clean_args, build_args (add_days START_DATE 1), view_args, clean_args],
       logged = [(Debug, ''Attempting to publish for 20231002 and abc1234 as 1.0.0-20231002''),
                 (Warn, ''20231002 or abc1234 is already published as 1.0.0-20231002; skipping this release'')]\<rparr>)"
    using t [of "dry_argv\<lparr>argv_continue := True\<rparr>"]
    by (simp add: Let_def oct2_facts(2) dry_argv_def start_state_def published_message_def
        attempt_message_def npmRun_plain ok clean_args_def [symmetric])
  show ?thesis
    using a b oct2_facts(1) oct2_facts(4) by simp
qed

text \<open>
  C5. The claim: in every iteration the clean script is run after the publish
  decision, whichever decision was taken. As amended: of the commands that an
  iteration runs from the registry query on, the clean script is the last one after
  a skip and after a publish script that has succeeded; when the iteration aborts
  on a duplicate, or when the publish script fails, the error is thrown at once and
  no clean script is run after the decision.
\<close>

theorem teardown_after_skip_or_publish:
  "let r = publish_candidate w cfg target v h st;
       run = drop (length (executed st)) (executed (snd r))
   in (matched w target v h \<and> argv_continue cfg \<longrightarrow> run = [view_args, clean_args]) \<and>
      (\<not> matched w target v h \<and> npm_ok w (Suc (length (executed st))) (publish_script cfg) \<longrightarrow>
         run = [view_args, publish_script cfg, clean_args]) \<and>
      (matched w target v h \<and> \<not> argv_continue cfg \<longrightarrow>
         run = [view_args] \<and>
         fst r = Some (DuplicateError (published_message (forthcomingDate target) h v))) \<and>
      (\<not> matched w target v h \<and> \<not> npm_ok w (Suc (length (executed st))) (publish_script cfg) \<longrightarrow>
         run = [view_args, publish_script cfg] \<and> fst r = Some (ExecError (publish_script cfg)))"
  by (simp add: publish_candidate_cases Let_def npmRun_plain clean_args_def [symmetric])

text \<open>
  The claim fails on the abort: in the second scenario of the specification the
  iteration of 2023-10-02 throws the duplicate error after the registry query, and
  the last command it has run is that query, not the clean script.
\<close>

theorem no_teardown_on_abort_counterexample:
  "iteration published_world dry_argv (add_days START_DATE 1) start_state =
     (Some (DuplicateError ''20231002 or abc1234 is already published as 1.0.0-20231002''),
      \<lparr>executed = [clean_args, build_args (add_days START_DATE 1), view_args],
       logged = [(Debug, ''Attempting to publish for 20231002 and abc1234 as 1.0.0-20231002'')]\<rparr>) \<and>
   last (executed (snd (iteration published_world dry_argv (add_days START_DATE 1) start_state))) \<noteq>
     clean_args"
  by code_simp


theorem teardown_after_skip_or_publish_witness:
  "executed (snd (publish_candidate published_world (dry_argv\<lparr>argv_continue := True\<rparr>)
      (add_days START_DATE 1) ''1.0.0-20231002'' ''abc1234'' start_state)) = [view_args, clean_args] \<and>
   executed (snd (publish_candidate fresh_world dry_argv START_DATE ''1.0.0-20231001'' ''abc1234''
      start_state)) = [view_args, dry_run_args, clean_args] \<and>
   publish_candidate published_world dry_argv (add_days START_DATE 1) ''1.0.0-20231002'' ''abc1234''
      start_state =
     (Some (DuplicateError ''20231002 or abc1234 is already published as 1.0.0-20231002''),
      \<lparr>executed = [view_args],
       logged = [(Debug, ''Attempting to publish for 20231002 and abc1234 as 1.0.0-20231002'')]\<rparr>) \<and>
   fst (publish_candidate unpublishable_world dry_argv START_DATE ''1.0.0-20231001'' ''abc1234''
      start_state) = Some (ExecError dry_run_args) \<and>
   executed (snd (publish_candidate unpublishable_world dry_argv START_DATE ''1.0.0-20231001''
      ''abc1234'' start_state)) = [view_args, dry_run_args]"
proof -
  have m2: "matched published_world (add_days START_DATE 1) ''1.0.0-20231002'' ''abc1234''"
    by (rule oct2_facts(4))
  have m1: "\<not> matched fresh_world START_DATE ''1.0.0-20231001'' ''abc1234''"
    by (simp add: no_versions_no_match failed_query_no_versions fresh_world_def)
  have m3: "\<not> matched unpublishable_world START_DATE ''1.0.0-20231001'' ''abc1234''"
    by (simp add: no_versions_no_match failed_query_no_versions fresh_world_def
        unpublishable_world_def)
  have k1: "npm_ok fresh_world (Suc (length (executed start_state))) (publish_script dry_argv)"
    by (simp add: fresh_world_def)
  have k3: "\<not> npm_ok unpublishable_world (Suc (length (executed start_state))) (publish_script dry_argv)"
    by (simp add: unpublishable_world_def publish_script_def dry_argv_def)
  have e: "executed start_state = []" "publish_script dry_argv = dry_run_args"
    "argv_continue (dry_argv\<lparr>argv_continue := True\<rparr>)" "\<not> argv_continue dry_argv"
    by (simp_all add: start_state_def publish_script_def dry_argv_def)
  have a: "executed (snd (publish_candidate published_world (dry_argv\<lparr>argv_continue := True\<rparr>)
      (add_days START_DATE 1) ''1.0.0-20231002'' ''abc1234'' start_state)) = [view_args, clean_args]"
    using teardown_after_skip_or_publish
      [of published_world "dry_argv\<lparr>argv_continue := True\<rparr>" "add_days START_DATE 1"
          "''1.0.0-20231002''" "''abc1234''" start_state] m2 e
    by (simp add: Let_def)
  have b: "executed (snd (publish_candidate fresh_world dry_argv START_DATE ''1.0.0-20231001''
      ''abc1234'' start_state)) = [view_args, dry_run_args, clean_args]"
    using teardown_after_skip_or_publish
      [of fresh_world dry_argv START_DATE "''1.0.0-20231001''" "''abc1234''" start_state] m1 k1 e
    by (simp add: Let_def)
  have c: "executed (snd (publish_candidate published_world dry_argv (add_days START_DATE 1)
      ''1.0.0-20231002'' ''abc1234'' start_state)) = [view_args] \<and>
    fst (publish_candidate published_world dry_argv (add_days START_DATE 1)
      ''1.0.0-20231002'' ''abc1234'' start_state) =
      Some (DuplicateError ''20231002 or abc1234 is already published as 1.0.0-20231002'')"
    using teardown_after_skip_or_publish
      [of published_world dry_argv "add_days START_DATE 1"
          "''1.0.0-20231002''" "''abc1234''" start_state] m2 e
    by (simp add: Let_def oct2_facts(2) published_message_def)
  have c': "logged (snd (publish_candidate published_world dry_argv (add_days START_DATE 1)
      ''1.0.0-20231002'' ''abc1234'' start_state)) =
      [(Debug, ''Attempting to publish for 20231002 and abc1234 as 1.0.0-20231002'')]"
    using m2 e
    by (simp add: publish_candidate_cases Let_def oct2_facts(2) attempt_message_def start_state_def)
  have d: "fst (publish_candidate unpublishable_world dry_argv START_DATE ''1.0.0-20231001''
      ''abc1234'' start_state) = Some (ExecError dry_run_args) \<and>
    executed (snd (publish_candidate unpublishable_world dry_argv START_DATE ''1.0.0-20231001''
      ''abc1234'' start_state)) = [view_args, dry_run_args]"
    using teardown_after_skip_or_publish
      [of unpublishable_world dry_argv START_DATE "''1.0.0-20231001''" "''abc1234''" start_state]
      m3 k3 e
    by (simp add: Let_def)
  have c'': "publish_candidate published_world dry_argv (add_days START_DATE 1) ''1.0.0-20231002''
      ''abc1234'' start_state =
     (Some (DuplicateError ''20231002 or abc1234 is already published as 1.0.0-20231002''),
      \<lparr>executed = [view_args],
       logged = [(Debug, ''Attempting to publish for 20231002 and abc1234 as 1.0.0-20231002'')]\<rparr>)"
    using c c' by (simp add: prod_eq_iff run_state.equality)
  show ?thesis
    using a b c'' d by simp
qed

subsection \<open>The days of a run\<close>

lemma builds_append: "builds (st\<lparr>executed := executed st @ cmds\<rparr>) =
    builds st @ filter (\<lambda>args. take 2 args = [''run'', ''build'']) cmds"
  by (simp add: builds_def)

lemma build_test:
  "take 2 clean_args \<noteq> [''run'', ''build'']"
  "take 2 view_args \<noteq> [''run'', ''build'']"
  "take 2 publish_args \<noteq> [''run'', ''build'']"
  "take 2 dry_run_args \<noteq> [''run'', ''build'']"
  "take 2 (publish_script cfg) \<noteq> [''run'', ''build'']"
  "take 2 (build_args t) = [''run'', ''build'']"
  by (simp_all add: clean_args_def view_args_def publish_args_def dry_run_args_def
      build_args_def publish_script_def)

lemma builds_simps:
  "builds (st\<lparr>logged := l\<rparr>) = builds st"
  "builds (st\<lparr>executed := executed st @ [args]\<rparr>) =
     (if take 2 args = [''run'', ''build''] then builds st @ [args] else builds st)"
  by (simp_all add: builds_def)

lemma builds_publish_candidate:
  "builds (snd (publish_candidate w cfg target v h st)) = builds st"
  by (simp add: publish_candidate_cases Let_def npmRun_plain builds_def build_test
      clean_args_def [symmetric])

lemma builds_iteration:
  "builds (snd (iteration w cfg target st)) =
     builds st @ (if npm_ok w (length (executed st)) clean_args then [build_args target] else [])"
  unfolding iteration_def build_candidate_def npmRun_build npmRun_plain
  by (simp add: builds_publish_candidate builds_append build_test clean_args_def [symmetric]
      split: option.splits)

lemma iteration_ok_cleaned:
  "fst (iteration w cfg target st) = None \<Longrightarrow> npm_ok w (length (executed st)) clean_args"
  unfolding iteration_def build_candidate_def npmRun_build npmRun_plain
  by (simp add: clean_args_def [symmetric] split: if_splits)


lemma ns_per_day_pos: "0 < ns_per_day"
  by (simp add: ns_per_day_def ns_per_second_def)

lemma add_days_simps:
  "add_days t 0 = t"
  "add_days (add_days t 1) (int i) = add_days t (int (Suc i))"
  by (simp_all add: add_days_def algebra_simps)

lemma main_loop_unfold:
  "main_loop w cfg now target st =
     (if target \<le> now then
        (if fst (iteration w cfg target st) = None
         then main_loop w cfg now (add_days target 1) (snd (iteration w cfg target st))
         else iteration w cfg target st)
      else (None, st))"
  by (subst main_loop.simps) (auto simp: zdt_compare_def split: prod.splits option.splits)

lemma days_count_step:
  assumes "target \<le> now"
  shows "(if now < add_days target 1 then 0 else (now - add_days target 1) div ns_per_day + 1) + 1 =
         (now - target) div ns_per_day + 1"
proof (cases "now < add_days target 1")
  case True
  with assms have "0 \<le> now - target" "now - target < ns_per_day"
    by (simp_all add: add_days_def)
  then have "(now - target) div ns_per_day = 0"
    by (simp add: div_pos_pos_trivial)
  with True show ?thesis by simp
next
  case False
  have "now - add_days target 1 = (now - target) - 1 * ns_per_day"
    by (simp add: add_days_def)
  then have "(now - add_days target 1) div ns_per_day = (now - target) div ns_per_day - 1"
    using ns_per_day_pos by (metis div_mult_self1 less_irrefl uminus_add_conv_diff mult_minus_left add.commute)
  with False show ?thesis by simp
qed

lemma main_loop_builds:
  "\<exists>n. builds (snd (main_loop w cfg now target st)) =
          builds st @ map (\<lambda>i. build_args (add_days target (int i))) [0..<n] \<and>
        (fst (main_loop w cfg now target st) = None \<longrightarrow>
           int n = (if now < target then 0 else (now - target) div ns_per_day + 1))"
proof (induction w cfg now target st rule: main_loop.induct)
  case (1 w cfg now target st)
  show ?case
  proof (cases "target \<le> now")
    case False
    then have "main_loop w cfg now target st = (None, st)"
      by (simp add: main_loop_unfold)
    with False show ?thesis by (intro exI [of _ 0]) simp
  next
    case le: True
    obtain e st' where it: "iteration w cfg target st = (e, st')"
      by (cases "iteration w cfg target st")
    show ?thesis
    proof (cases e)
      case (Some err)
      with it le have m: "main_loop w cfg now target st = (Some err, st')"
        by (simp add: main_loop_unfold)
      have "builds st' =
          builds st @ (if npm_ok w (length (executed st)) clean_args then [build_args target] else [])"
        using builds_iteration [of w cfg target st] it by simp
      then have "builds st' = builds st @ map (\<lambda>i. build_args (add_days target (int i)))
          [0..<(if npm_ok w (length (executed st)) clean_args then 1 else 0)]"
        by (simp add: add_days_simps)
      with m show ?thesis
        by (intro exI [of _ "if npm_ok w (length (executed st)) clean_args then 1 else 0"]) simp
    next
      case None
      with it le have m: "main_loop w cfg now target st = main_loop w cfg now (add_days target 1) st'"
        by (simp add: main_loop_unfold)
      have c: "zdt_compare target now < 1"
        using le by (simp add: zdt_compare_def)
      have "\<exists>n. builds (snd (main_loop w cfg now (add_days target 1) st')) =
              builds st' @ map (\<lambda>i. build_args (add_days (add_days target 1) (int i))) [0..<n] \<and>
            (fst (main_loop w cfg now (add_days target 1) st') = None \<longrightarrow>
              int n = (if now < add_days target 1 then 0
                       else (now - add_days target 1) div ns_per_day + 1))"
        by (rule "1.IH" [OF c it [symmetric] None])
      then obtain n where
        b: "builds (snd (main_loop w cfg now (add_days target 1) st')) =
              builds st' @ map (\<lambda>i. build_args (add_days (add_days target 1) (int i))) [0..<n]"
        and k: "fst (main_loop w cfg now (add_days target 1) st') = None \<longrightarrow>
              int n = (if now < add_days target 1 then 0
                       else (now - add_days target 1) div ns_per_day + 1)"
        by (elim exE conjE)
      have "npm_ok w (length (executed st)) clean_args"
        using iteration_ok_cleaned [of w cfg target st] it None by simp
      then have s: "builds st' = builds st @ [build_args target]"
        using builds_iteration [of w cfg target st] it by simp
      have l: "map (\<lambda>i. build_args (add_days target (int i))) [0..<Suc n] =
          build_args target # map (\<lambda>i. build_args (add_days (add_days target 1) (int i))) [0..<n]"
        unfolding add_days_simps(2)
        by (simp add: upt_conv_Cons map_Suc_upt [symmetric] add_days_simps(1) del: upt_Suc)
      have "builds (snd (main_loop w cfg now target st)) =
          builds st @ map (\<lambda>i. build_args (add_days target (int i))) [0..<Suc n]"
        unfolding m b s l by simp
      moreover have "fst (main_loop w cfg now target st) = None \<longrightarrow>
          int (Suc n) = (if now < target then 0 else (now - target) div ns_per_day + 1)"
        using k days_count_step [OF le] le unfolding m by auto
      ultimately show ?thesis
        by - (rule exI [of _ "Suc n"], rule conjI, assumption+)
    qed
  qed
qed


lemma START_DATE_aligned: "START_DATE mod ns_per_day = 0"
  by (simp add: START_DATE_def toZonedDateTime_def)

lemma last_day_is_today:
  "add_days START_DATE ((now - START_DATE) div ns_per_day) = startOfDay now"
proof -
  have "(now - START_DATE) div ns_per_day * ns_per_day =
      (now - START_DATE) - (now - START_DATE) mod ns_per_day"
    by (simp add: minus_mod_eq_div_mult [symmetric])
  moreover have "(now - START_DATE) mod ns_per_day = now mod ns_per_day"
    using START_DATE_aligned by (metis mod_diff_right_eq diff_zero mod_mod_trivial)
  ultimately show ?thesis
    by (simp add: add_days_def startOfDay_def)
qed

text \<open>
  C3. The loop of \<^verbatim>\<open>main\<close> always ends, and the days it builds are the consecutive
  days from 2023-10-01 on, each once and in ascending order. When the run ends
  without an error it has built every day up to the calendar day that contains
  \<open>now\<close> (none when \<open>now\<close> is before the start date). With \<open>now\<close> at
  2023-10-03T00:00:00Z, no published versions and the default options, the run makes
  exactly three iterations, for October 1, 2 and 3, each with a dry-run publish.
\<close>

theorem main_builds_consecutive_days:
  "(\<exists>n. builds (snd (main w cfg now)) =
          map (\<lambda>i. build_args (add_days START_DATE (int i))) [0..<n] \<and>
        (fst (main w cfg now) = None \<longrightarrow>
           int n = (if now < START_DATE then 0 else (now - START_DATE) div ns_per_day + 1) \<and>
           (START_DATE \<le> now \<longrightarrow> add_days START_DATE (int n - 1) = startOfDay now))) \<and>
   scenario_now = add_days START_DATE 2 \<and>
   main fresh_world dry_argv scenario_now =
     (None,
      \<lparr>executed =
         concat (map (\<lambda>t. [clean_args, build_args t, view_args, dry_run_args, clean_args])
           [START_DATE, add_days START_DATE 1, add_days START_DATE 2]),
       logged =
         [(Debug, ''Attempting to publish for 20231001 and abc1234 as 1.0.0-20231001''),
          (Debug, ''Attempting to publish for 20231002 and abc1234 as 1.0.0-20231002''),
          (Debug, ''Attempting to publish for 20231003 and abc1234 as 1.0.0-20231003'')]\<rparr>) \<and>
   map build_args [START_DATE, add_days START_DATE 1, add_days START_DATE 2] =
     [[''run'', ''build'', ''--'', ''--date=2023-10-01T00:00:00+00:00[UTC]''],
      [''run'', ''build'', ''--'', ''--date=2023-10-02T00:00:00+00:00[UTC]''],
      [''run'', ''build'', ''--'', ''--date=2023-10-03T00:00:00+00:00[UTC]'']]"
proof -
  obtain n where
    b: "builds (snd (main w cfg now)) =
          builds \<lparr>executed = [], logged = []\<rparr> @
          map (\<lambda>i. build_args (add_days START_DATE (int i))) [0..<n]"
    and k: "fst (main w cfg now) = None \<longrightarrow>
          int n = (if now < START_DATE then 0 else (now - START_DATE) div ns_per_day + 1)"
    using main_loop_builds [of w cfg now START_DATE "\<lparr>executed = [], logged = []\<rparr>"]
    unfolding main_def by (elim exE conjE)
  have b': "builds (snd (main w cfg now)) =
      map (\<lambda>i. build_args (add_days START_DATE (int i))) [0..<n]"
    using b by (simp add: builds_def)
  have t: "add_days START_DATE (int n - 1) = startOfDay now"
    if "fst (main w cfg now) = None" and "START_DATE \<le> now"
    using k that last_day_is_today [of now] by simp
  have g: "\<exists>n. builds (snd (main w cfg now)) =
          map (\<lambda>i. build_args (add_days START_DATE (int i))) [0..<n] \<and>
        (fst (main w cfg now) = None \<longrightarrow>
           int n = (if now < START_DATE then 0 else (now - START_DATE) div ns_per_day + 1) \<and>
           (START_DATE \<le> now \<longrightarrow> add_days START_DATE (int n - 1) = startOfDay now))"
    using b' k t by - (rule exI [of _ n], simp)
  have s1: "scenario_now = add_days START_DATE 2"
    by code_simp
  have s2: "main fresh_world dry_argv scenario_now =
     (None,
      \<lparr>executed =
         concat (map (\<lambda>t. [clean_args, build_args t, view_args, dry_run_args, clean_args])
           [START_DATE, add_days START_DATE 1, add_days START_DATE 2]),
       logged =
         [(Debug, ''Attempting to publish for 20231001 and abc1234 as 1.0.0-20231001''),
          (Debug, ''Attempting to publish for 20231002 and abc1234 as 1.0.0-20231002''),
          (Debug, ''Attempting to publish for 20231003 and abc1234 as 1.0.0-20231003'')]\<rparr>)"
    by code_simp
  have s3: "map build_args [START_DATE, add_days START_DATE 1, add_days START_DATE 2] =
     [[''run'', ''build'', ''--'', ''--date=2023-10-01T00:00:00+00:00[UTC]''],
      [''run'', ''build'', ''--'', ''--date=2023-10-02T00:00:00+00:00[UTC]''],
      [''run'', ''build'', ''--'', ''--date=2023-10-03T00:00:00+00:00[UTC]'']]"
    by code_simp
  show ?thesis
    using g s1 s2 s3 by (intro conjI)
qed

theorem main_builds_consecutive_days_witness:
  "fst (main fresh_world dry_argv scenario_noon) = None \<and>
   START_DATE \<le> scenario_noon \<and>
   builds (snd (main fresh_world dry_argv scenario_noon)) =
     [build_args START_DATE, build_args (add_days START_DATE 1), build_args (add_days START_DATE 2)] \<and>
   add_days START_DATE 2 = startOfDay scenario_noon"
proof -
  have f: "fst (main fresh_world dry_argv scenario_noon) = None"
    by code_simp
  have l: "START_DATE \<le> scenario_noon" "\<not> scenario_noon < START_DATE"
    by code_simp+
  have d: "(scenario_noon - START_DATE) div ns_per_day + 1 = 3"
    by code_simp
  obtain n where
    b: "builds (snd (main fresh_world dry_argv scenario_noon)) =
          map (\<lambda>i. build_args (add_days START_DATE (int i))) [0..<n]"
    and k: "int n = (scenario_noon - START_DATE) div ns_per_day + 1"
    and t: "add_days START_DATE (int n - 1) = startOfDay scenario_noon"
    using main_builds_consecutive_days [of fresh_world dry_argv scenario_noon] f l
    by auto
  from k d have n: "n = 3" by simp
  have "[0..<3] = [0, 1, 2]"
    by (simp add: upt_conv_Cons)
  with b t n f l show ?thesis
    by (simp add: add_days_simps(1))
qed

subsection \<open>Dry run and real run\<close>

lemma as_dry_args_simps:
  "as_dry_args clean_args = clean_args"
  "as_dry_args view_args = view_args"
  "as_dry_args (build_args t) = build_args t"
  "as_dry_args publish_args = dry_run_args"
  "as_dry_args dry_run_args = dry_run_args"
  by (simp_all add: as_dry_args_def script_names_differ)

lemma as_dry_args_not_publish: "as_dry_args args \<noteq> publish_args"
  by (simp add: as_dry_args_def script_names_differ [symmetric])

lemma as_dry_state_simps:
  "executed (as_dry_state st) = map as_dry_args (executed st)"
  "logged (as_dry_state st) = logged st"
  "as_dry_state (st\<lparr>executed := executed st @ cmds\<rparr>) =
     (as_dry_state st)\<lparr>executed := executed (as_dry_state st) @ map as_dry_args cmds\<rparr>"
  "as_dry_state (st\<lparr>logged := l\<rparr>) = (as_dry_state st)\<lparr>logged := l\<rparr>"
  by (simp_all add: as_dry_state_def)

lemma as_dry_run_simps:
  "as_dry_run (None, st) = (None, as_dry_state st)"
  "as_dry_run (Some e, st) = (Some (as_dry_error e), as_dry_state st)"
  by (simp_all add: as_dry_run_def)

lemma build_candidate_as_dry:
  "build_candidate w target (as_dry_state st) =
     (map_sum as_dry_error id (fst (build_candidate w target st)),
      as_dry_state (snd (build_candidate w target st)))"
  unfolding build_candidate_def npmRun_build npmRun_plain
  by (simp add: as_dry_state_simps as_dry_args_simps clean_args_def [symmetric]
      split: option.splits)

lemma publish_candidate_as_dry:
  assumes "\<forall>k. npm_ok w k publish_args = npm_ok w k dry_run_args"
  shows "publish_candidate w (cfg\<lparr>argv_dryRun := True\<rparr>) target v h (as_dry_state st) =
     as_dry_run (publish_candidate w (cfg\<lparr>argv_dryRun := False\<rparr>) target v h st)"
  using assms
  by (simp add: publish_candidate_cases Let_def npmRun_plain publish_script_def
      as_dry_state_simps as_dry_run_simps as_dry_args_simps clean_args_def [symmetric])

lemma iteration_as_dry:
  assumes "\<forall>k. npm_ok w k publish_args = npm_ok w k dry_run_args"
  shows "iteration w (cfg\<lparr>argv_dryRun := True\<rparr>) target (as_dry_state st) =
     as_dry_run (iteration w (cfg\<lparr>argv_dryRun := False\<rparr>) target st)"
proof (cases "build_candidate w target st")
  case (Pair r st1)
  show ?thesis
  proof (cases r)
    case (Inl e)
    with Pair show ?thesis
      by (simp add: iteration_def build_candidate_as_dry as_dry_run_simps)
  next
    case (Inr c)
    obtain v h where "c = (v, h)" by (cases c)
    with Pair Inr show ?thesis
      by (simp add: iteration_def build_candidate_as_dry publish_candidate_as_dry [OF assms])
  qed
qed

lemma main_loop_as_dry:
  assumes "\<forall>k. npm_ok w k publish_args = npm_ok w k dry_run_args"
  shows "main_loop w (cfg\<lparr>argv_dryRun := True\<rparr>) now target (as_dry_state st) =
     as_dry_run (main_loop w (cfg\<lparr>argv_dryRun := False\<rparr>) now target st)"
  using assms
proof (induction w "cfg\<lparr>argv_dryRun := False\<rparr>" now target st rule: main_loop.induct)
  case (1 w now target st)
  note it = iteration_as_dry [of w cfg target st, OF "1.prems"]
  show ?case
  proof (cases "target \<le> now")
    case False
    then show ?thesis
      by (simp add: main_loop_unfold as_dry_run_simps)
  next
    case le: True
    obtain e st' where r: "iteration w (cfg\<lparr>argv_dryRun := False\<rparr>) target st = (e, st')"
      by (cases "iteration w (cfg\<lparr>argv_dryRun := False\<rparr>) target st")
    show ?thesis
    proof (cases e)
      case (Some err)
      with r le it show ?thesis
        by (simp add: main_loop_unfold [of w _ now target] as_dry_run_simps)
    next
      case None
      have c: "zdt_compare target now < 1"
        using le by (simp add: zdt_compare_def)
      have "main_loop w (cfg\<lparr>argv_dryRun := True\<rparr>) now (add_days target 1) (as_dry_state st') =
          as_dry_run (main_loop w (cfg\<lparr>argv_dryRun := False\<rparr>) now (add_days target 1) st')"
        by (rule "1.hyps" [OF c r [symmetric] None "1.prems"])
      with r le it None show ?thesis
        by (simp add: main_loop_unfold [of w _ now target] as_dry_run_simps)
    qed
  qed
qed


lemma executed_publish_candidate:
  "set (executed (snd (publish_candidate w cfg target v h st))) \<subseteq>
     set (executed st) \<union> {view_args, publish_script cfg, clean_args}"
  by (auto simp: publish_candidate_cases Let_def npmRun_plain clean_args_def [symmetric])

lemma executed_iteration:
  "set (executed (snd (iteration w cfg target st))) \<subseteq>
     set (executed st) \<union> {clean_args, build_args target, view_args, publish_script cfg}"
proof (cases "build_candidate w target st")
  case (Pair r st1)
  have b: "set (executed st1) \<subseteq> set (executed st) \<union> {clean_args, build_args target}"
    using Pair unfolding build_candidate_def npmRun_build npmRun_plain
    by (auto simp: clean_args_def [symmetric] split: if_splits option.splits)
  show ?thesis
  proof (cases r)
    case (Inl e)
    with Pair b show ?thesis by (auto simp: iteration_def)
  next
    case (Inr c)
    obtain v h where "c = (v, h)" by (cases c)
    with Pair Inr b executed_publish_candidate [of w cfg target v h st1] show ?thesis
      by (auto simp: iteration_def)
  qed
qed

lemma real_run_has_no_dry_run:
  assumes "\<not> argv_dryRun cfg" and "dry_run_args \<notin> set (executed st)"
  shows "dry_run_args \<notin> set (executed (snd (main_loop w cfg now target st)))"
  using assms
proof (induction w cfg now target st rule: main_loop.induct)
  case (1 w cfg now target st)
  have i: "dry_run_args \<notin> set (executed (snd (iteration w cfg target st)))"
    using executed_iteration [of w cfg target st] "1.prems"
    by (auto simp: publish_script_def script_names_differ script_names_differ [symmetric])
  show ?case
  proof (cases "target \<le> now \<and> fst (iteration w cfg target st) = None")
    case False
    with i "1.prems" show ?thesis
      by (auto simp: main_loop_unfold [of w cfg now target])
  next
    case True
    then have c: "zdt_compare target now < 1"
      by (simp add: zdt_compare_def)
    obtain st' where r: "iteration w cfg target st = (None, st')"
      using True by (cases "iteration w cfg target st") auto
    have "dry_run_args \<notin> set (executed (snd (main_loop w cfg now (add_days target 1) st')))"
      using "1.IH" [OF c r [symmetric] refl "1.prems"(1)] i r by simp
    with True r show ?thesis
      by (simp add: main_loop_unfold [of w cfg now target])
  qed
qed

lemma dry_run_has_no_publish:
  assumes "argv_dryRun cfg" and "publish_args \<notin> set (executed st)"
  shows "publish_args \<notin> set (executed (snd (main_loop w cfg now target st)))"
  using assms
proof (induction w cfg now target st rule: main_loop.induct)
  case (1 w cfg now target st)
  have i: "publish_args \<notin> set (executed (snd (iteration w cfg target st)))"
    using executed_iteration [of w cfg target st] "1.prems"
    by (auto simp: publish_script_def script_names_differ script_names_differ [symmetric])
  show ?case
  proof (cases "target \<le> now \<and> fst (iteration w cfg target st) = None")
    case False
    with i "1.prems" show ?thesis
      by (auto simp: main_loop_unfold [of w cfg now target])
  next
    case True
    then have c: "zdt_compare target now < 1"
      by (simp add: zdt_compare_def)
    obtain st' where r: "iteration w cfg target st = (None, st')"
      using True by (cases "iteration w cfg target st") auto
    have "publish_args \<notin> set (executed (snd (main_loop w cfg now (add_days target 1) st')))"
      using "1.IH" [OF c r [symmetric] refl "1.prems"(1)] i r by simp
    with True r show ?thesis
      by (simp add: main_loop_unfold [of w cfg now target])
  qed
qed

text \<open>
  C9. The claim: two runs over the same start date, \<open>now\<close>, ledger and build
  outputs that differ only in \<^verbatim>\<open>--dry-run\<close> make the same steps and decisions and
  differ only in the publish call. As amended: in every world the dry run never
  runs \<^verbatim>\<open>publish\<close> and the real run never runs \<^verbatim>\<open>publish:dry-run\<close>; from the same
  state, the candidate of a day that matches is skipped or aborted alike in both
  modes, and one that does not match is followed by the publish script of the mode
  right after the registry query; and when the publish script and its dry run
  succeed or fail alike wherever they are run, the whole dry run is the real run
  with every \<^verbatim>\<open>publish\<close> read as \<^verbatim>\<open>publish:dry-run\<close>: the same commands in the same
  order, the same log and so the same skips, the same error at the same point.
\<close>

theorem dry_run_previews_real_run:
  "publish_args \<notin> set (executed (snd (main w (cfg\<lparr>argv_dryRun := True\<rparr>) now))) \<and>
   dry_run_args \<notin> set (executed (snd (main w (cfg\<lparr>argv_dryRun := False\<rparr>) now))) \<and>
   (matched w target v h \<longrightarrow>
      publish_candidate w (cfg\<lparr>argv_dryRun := True\<rparr>) target v h st =
      publish_candidate w (cfg\<lparr>argv_dryRun := False\<rparr>) target v h st) \<and>
   (\<not> matched w target v h \<longrightarrow>
      take 2 (drop (length (executed st))
        (executed (snd (publish_candidate w (cfg\<lparr>argv_dryRun := True\<rparr>) target v h st)))) =
        [view_args, dry_run_args] \<and>
      take 2 (drop (length (executed st))
        (executed (snd (publish_candidate w (cfg\<lparr>argv_dryRun := False\<rparr>) target v h st)))) =
        [view_args, publish_args]) \<and>
   ((\<forall>k. npm_ok w k publish_args = npm_ok w k dry_run_args) \<longrightarrow>
      main w (cfg\<lparr>argv_dryRun := True\<rparr>) now =
        as_dry_run (main w (cfg\<lparr>argv_dryRun := False\<rparr>) now) \<and>
      logged (snd (main w (cfg\<lparr>argv_dryRun := True\<rparr>) now)) =
        logged (snd (main w (cfg\<lparr>argv_dryRun := False\<rparr>) now)))"
proof -
  have c: "publish_args \<notin> set (executed (snd (main w (cfg\<lparr>argv_dryRun := True\<rparr>) now)))"
    unfolding main_def by (rule dry_run_has_no_publish) simp_all
  have d: "dry_run_args \<notin> set (executed (snd (main w (cfg\<lparr>argv_dryRun := False\<rparr>) now)))"
    unfolding main_def by (rule real_run_has_no_dry_run) simp_all
  have m: "publish_candidate w (cfg\<lparr>argv_dryRun := True\<rparr>) target v h st =
      publish_candidate w (cfg\<lparr>argv_dryRun := False\<rparr>) target v h st"
    if "matched w target v h"
    using that by (simp add: publish_candidate_cases Let_def)
  have n: "take 2 (drop (length (executed st))
        (executed (snd (publish_candidate w (cfg\<lparr>argv_dryRun := True\<rparr>) target v h st)))) =
        [view_args, dry_run_args] \<and>
      take 2 (drop (length (executed st))
        (executed (snd (publish_candidate w (cfg\<lparr>argv_dryRun := False\<rparr>) target v h st)))) =
        [view_args, publish_args]"
    if "\<not> matched w target v h"
    using that by (simp add: publish_candidate_cases Let_def npmRun_plain publish_script_def)
  have s: "main w (cfg\<lparr>argv_dryRun := True\<rparr>) now =
        as_dry_run (main w (cfg\<lparr>argv_dryRun := False\<rparr>) now) \<and>
      logged (snd (main w (cfg\<lparr>argv_dryRun := True\<rparr>) now)) =
        logged (snd (main w (cfg\<lparr>argv_dryRun := False\<rparr>) now))"
    if k: "\<forall>k. npm_ok w k publish_args = npm_ok w k dry_run_args"
  proof -
    have e: "as_dry_state \<lparr>executed = [], logged = []\<rparr> = \<lparr>executed = [], logged = []\<rparr>"
      by (simp add: as_dry_state_def)
    have a: "main w (cfg\<lparr>argv_dryRun := True\<rparr>) now =
        as_dry_run (main w (cfg\<lparr>argv_dryRun := False\<rparr>) now)"
      using main_loop_as_dry [OF k, of cfg now START_DATE "\<lparr>executed = [], logged = []\<rparr>"]
      by (simp add: main_def e)
    have "logged (snd (main w (cfg\<lparr>argv_dryRun := True\<rparr>) now)) =
        logged (snd (main w (cfg\<lparr>argv_dryRun := False\<rparr>) now))"
      unfolding a by (simp add: as_dry_run_def as_dry_state_simps)
    with a show ?thesis by simp
  qed
  show ?thesis using c d m n s by blast
qed

text \<open>
  The claim fails without the condition on the publish scripts: where the real
  publish fails and its dry run succeeds, the real run ends on 2023-10-01 with the
  error of the command, while the dry run goes on and builds 2023-10-02.
\<close>

theorem failed_publish_counterexample:
  "main rejecting_world (dry_argv\<lparr>argv_dryRun := False\<rparr>) (add_days START_DATE 1) =
     (Some (ExecError publish_args),
      \<lparr>executed = [clean_args, build_args START_DATE, view_args, publish_args],
       logged = [(Debug, ''Attempting to publish for 20231001 and abc1234 as 1.0.0-20231001'')]\<rparr>) \<and>
   main rejecting_world (dry_argv\<lparr>argv_dryRun := True\<rparr>) (add_days START_DATE 1) =
     (None,
      \<lparr>executed = [clean_args, build_args START_DATE, view_args, dry_run_args, clean_args,
                   clean_args, build_args (add_days START_DATE 1), view_args, dry_run_args,
                   clean_args],
       logged = [(Debug, ''Attempting to publish for 20231001 and abc1234 as 1.0.0-20231001''),
                 (Debug, ''Attempting to publish for 20231002 and abc1234 as 1.0.0-20231002'')]\<rparr>)"
  by code_simp

theorem dry_run_previews_real_run_witness:
  "(\<forall>k. npm_ok published_world k publish_args = npm_ok published_world k dry_run_args) \<and>
   matched published_world (add_days START_DATE 1) ''1.0.0-20231002'' ''abc1234'' \<and>
   publish_candidate published_world (dry_argv\<lparr>argv_continue := True, argv_dryRun := True\<rparr>)
       (add_days START_DATE 1) ''1.0.0-20231002'' ''abc1234'' start_state =
     publish_candidate published_world (dry_argv\<lparr>argv_continue := True, argv_dryRun := False\<rparr>)
       (add_days START_DATE 1) ''1.0.0-20231002'' ''abc1234'' start_state \<and>
   \<not> matched fresh_world START_DATE ''1.0.0-20231001'' ''abc1234'' \<and>
   take 2 (executed (snd (publish_candidate fresh_world (dry_argv\<lparr>argv_dryRun := False\<rparr>)
       START_DATE ''1.0.0-20231001'' ''abc1234'' start_state))) = [view_args, publish_args] \<and>
   main published_world (dry_argv\<lparr>argv_continue := True, argv_dryRun := False\<rparr>) (add_days START_DATE 1) =
     (None,
      \<lparr>executed = [clean_args, build_args START_DATE, view_args, publish_args, clean_args,
                   clean_args, build_args (add_days START_DATE 1), view_args, clean_args],
       logged = [(Debug, ''Attempting to publish for 20231001 and abc1234 as 1.0.0-20231001''),
                 (Debug, ''Attempting to publish for 20231002 and abc1234 as 1.0.0-20231002''),
                 (Warn, ''20231002 or abc1234 is already published as 1.0.0-20231002; skipping this release'')]\<rparr>) \<and>
   main published_world (dry_argv\<lparr>argv_continue := True, argv_dryRun := True\<rparr>) (add_days START_DATE 1) =
     (None,
      \<lparr>executed = [clean_args, build_args START_DATE, view_args, dry_run_args, clean_args,
                   clean_args, build_args (add_days START_DATE 1), view_args, clean_args],
       logged = [(Debug, ''Attempting to publish for 20231001 and abc1234 as 1.0.0-20231001''),
                 (Debug, ''Attempting to publish for 20231002 and abc1234 as 1.0.0-20231002''),
                 (Warn, ''20231002 or abc1234 is already published as 1.0.0-20231002; skipping this release'')]\<rparr>)"
proof -
  have h: "\<forall>k. npm_ok published_world k publish_args = npm_ok published_world k dry_run_args"
    by (simp add: published_world_def fresh_world_def)
  have m2: "matched published_world (add_days START_DATE 1) ''1.0.0-20231002'' ''abc1234''"
    by (rule oct2_facts(4))
  have m1: "\<not> matched fresh_world START_DATE ''1.0.0-20231001'' ''abc1234''"
    by (simp add: no_versions_no_match failed_query_no_versions fresh_world_def)
  have e: "executed start_state = []"
    by (simp add: start_state_def)
  have r: "main published_world (dry_argv\<lparr>argv_continue := True, argv_dryRun := False\<rparr>)
      (add_days START_DATE 1) =
     (None,
      \<lparr>executed = [clean_args, build_args START_DATE, view_args, publish_args, clean_args,
                   clean_args, build_args (add_days START_DATE 1), view_args, clean_args],
       logged = [(Debug, ''Attempting to publish for 20231001 and abc1234 as 1.0.0-20231001''),
                 (Debug, ''Attempting to publish for 20231002 and abc1234 as 1.0.0-20231002''),
                 (Warn, ''20231002 or abc1234 is already published as 1.0.0-20231002; skipping this release'')]\<rparr>)"
    by code_simp
  note t2 = dry_run_previews_real_run
    [of published_world "dry_argv\<lparr>argv_continue := True\<rparr>" "add_days START_DATE 1"
        "add_days START_DATE 1" "''1.0.0-20231002''" "''abc1234''" start_state]
  note t1 = dry_run_previews_real_run
    [of fresh_world dry_argv "add_days START_DATE 1" START_DATE "''1.0.0-20231001''" "''abc1234''"
        start_state]
  have a: "publish_candidate published_world (dry_argv\<lparr>argv_continue := True, argv_dryRun := True\<rparr>)
       (add_days START_DATE 1) ''1.0.0-20231002'' ''abc1234'' start_state =
     publish_candidate published_world (dry_argv\<lparr>argv_continue := True, argv_dryRun := False\<rparr>)
       (add_days START_DATE 1) ''1.0.0-20231002'' ''abc1234'' start_state"
    using t2 m2 by simp
  have b: "take 2 (executed (snd (publish_candidate fresh_world (dry_argv\<lparr>argv_dryRun := False\<rparr>)
       START_DATE ''1.0.0-20231001'' ''abc1234'' start_state))) = [view_args, publish_args]"
    using t1 m1 e by simp
  have d: "main published_world (dry_argv\<lparr>argv_continue := True, argv_dryRun := True\<rparr>)
      (add_days START_DATE 1) =
     (None,
      \<lparr>executed = [clean_args, build_args START_DATE, view_args, dry_run_args, clean_args,
                   clean_args, build_args (add_days START_DATE 1), view_args, clean_args],
       logged = [(Debug, ''Attempting to publish for 20231001 and abc1234 as 1.0.0-20231001''),
                 (Debug, ''Attempting to publish for 20231002 and abc1234 as 1.0.0-20231002''),
                 (Warn, ''20231002 or abc1234 is already published as 1.0.0-20231002; skipping this release'')]\<rparr>)"
    using t2 h r
    by (simp add: as_dry_run_def as_dry_state_def as_dry_args_simps)
  show ?thesis using h m2 a m1 b r d by (intro conjI)
qed

end
